theory Spec2Isabelle
  imports Main "HOL-Library.Word"
begin

unbundle bit_operations_syntax

section \<open>color-readelf: the ELF64 decoder of \<^verbatim>\<open>main.go\<close>\<close>

text \<open>
  The program reads an ELF64 file header, the program header table and the section header
  table (with names resolved through the section-header string table) and renders them.
  The rendering (\<^verbatim>\<open>ColorPrint\<close>, \<^verbatim>\<open>json.MarshalIndent\<close>) is left out: every function
  below returns the decoded data that the source hands to the renderer.

  Go's fixed-width integers are words: \<^verbatim>\<open>byte\<close> is \<^typ>\<open>8 word\<close>, \<^verbatim>\<open>uint16\<close> is
  \<^typ>\<open>16 word\<close>, and so on. \<^verbatim>\<open>int\<close> is taken to be 64 bits wide (the program targets
  64-bit ELF hosts), so the length of a slice is a natural number below \<open>2 ^ 63\<close>.
\<close>

type_synonym byte = "8 word"
type_synonym uint16 = "16 word"
type_synonym uint32 = "32 word"
type_synonym uint64 = "64 word"

subsection \<open>Failures\<close>

text \<open>
  \<^verbatim>\<open>io.ReadFull\<close> (under \<^verbatim>\<open>binary.Read\<close>) reports \<^verbatim>\<open>io.EOF\<close> when no byte could be read
  and \<^verbatim>\<open>io.ErrUnexpectedEOF\<close> when some but not all bytes could be read.
\<close>

datatype error = EOF | ErrUnexpectedEOF

text \<open>
  The run-time panics of Go that the decoder can reach: indexing a slice out of range
  (\<^verbatim>\<open>index out of range [i] with length n\<close>), slicing out of range
  (\<^verbatim>\<open>slice bounds out of range [i:n]\<close>), and \<^verbatim>\<open>make\<close> with a length that the run-time
  refuses (\<^verbatim>\<open>makeslice: len out of range\<close>).
\<close>

datatype panic =
    IndexOutOfRange nat nat
  | SliceBoundsOutOfRange nat nat
  | MakesliceLenOutOfRange

subsection \<open>Strings\<close>

text \<open>
  A Go string is a sequence of bytes; \<^verbatim>\<open>string(bs)\<close> copies the bytes of a slice. The
  characters of a HOL \<^typ>\<open>string\<close> are bytes as well.
\<close>

definition string_of_bytes :: "byte list \<Rightarrow> string" where
  "string_of_bytes bs = map (\<lambda>b. char_of (unat b)) bs"

subsection \<open>\<^verbatim>\<open>getString\<close>\<close>

text \<open>
  \<^verbatim>\<open>
  func getString(data []byte, index uint32) string {
      end := index
      for end < uint32(len(data)) && data[end] != 0 {
          end++
      }
      return string(data[index:end])
  }
  \<close>
  The loop is \<open>getString_loop\<close>. The conversion \<^verbatim>\<open>uint32(len(data))\<close> keeps the low 32
  bits of the length (\<open>word_of_nat\<close>), and the comparison and the increment are those of
  \<^verbatim>\<open>uint32\<close>. The slice \<open>data\<close> is a list whose capacity is its length, as for every slice
  that \<^verbatim>\<open>make([]byte, size)\<close> returns (the only origin of \<open>data\<close> in the program); the
  slice expression \<^verbatim>\<open>data[index:end]\<close> panics unless \<open>index \<le> end \<le> cap(data)\<close>.
\<close>

function getString_loop :: "byte list \<Rightarrow> uint32 \<Rightarrow> uint32" where
  "getString_loop data end =
     (if end < word_of_nat (length data) \<and> data ! unat end \<noteq> 0
      then getString_loop data (end + 1) else end)"
  by pat_completeness auto
termination
proof (relation "measure (\<lambda>(data, end). unat (word_of_nat (length data) :: uint32) - unat end)")
  show "wf (measure (\<lambda>(data, end). unat (word_of_nat (length data) :: uint32) - unat end))"
    by simp
next
  fix data :: "byte list" and "end" :: uint32
  assume a: "end < word_of_nat (length data) \<and> data ! unat end \<noteq> 0"
  then have lt: "unat end < unat (word_of_nat (length data) :: uint32)"
    by (simp add: word_less_nat_alt)
  moreover have "unat (word_of_nat (length data) :: uint32) < 2 ^ LENGTH(32)"
    by (rule unsigned_less)
  ultimately have "unat end + unat (1 :: uint32) < 2 ^ LENGTH(32)"
    by simp
  then have "unat (end + 1) = unat end + unat (1 :: uint32)"
    by (simp only: unat_add_lem)
  with lt show "((data, end + 1), (data, end))
      \<in> measure (\<lambda>(data, end). unat (word_of_nat (length data) :: uint32) - unat end)"
    by simp
qed

declare getString_loop.simps [simp del]

definition getString :: "byte list \<Rightarrow> uint32 \<Rightarrow> panic + string" where
  "getString data index =
     (let end = getString_loop data index in
      if unat index \<le> unat end \<and> unat end \<le> length data
      then Inr (string_of_bytes (take (unat end - unat index) (drop (unat index) data)))
      else Inl (SliceBoundsOutOfRange (unat index) (unat end)))"

subsection \<open>The records\<close>

text \<open>
  The four structs of the source. Their Go field names repeat from struct to struct
  (\<^verbatim>\<open>Type\<close>, \<^verbatim>\<open>Flags\<close>, \<^verbatim>\<open>Offset\<close>, ...), so each field carries the prefix that the ELF
  format gives it: \<open>e_\<close> for \<^verbatim>\<open>Elf64Ehdr\<close>, \<open>p_\<close> for \<^verbatim>\<open>Elf64Phdr\<close>, \<open>sh_\<close> for
  \<^verbatim>\<open>Elf64Shdr\<close> and \<open>shn_\<close> for \<^verbatim>\<open>Elf64ShdrWithName\<close>.
\<close>

record Elf64Ehdr =
  e_Ident :: "byte list"
  e_Type :: uint16
  e_Machine :: uint16
  e_Version :: uint32
  e_Entry :: uint64
  e_Phoff :: uint64
  e_Shoff :: uint64
  e_Flags :: uint32
  e_Ehsize :: uint16
  e_Phentsize :: uint16
  e_Phnum :: uint16
  e_Shentsize :: uint16
  e_Shnum :: uint16
  e_Shstrndx :: uint16

record Elf64Phdr =
  p_Type :: uint32
  p_Flags :: uint32
  p_Offset :: uint64
  p_Vaddr :: uint64
  p_Paddr :: uint64
  p_Filesz :: uint64
  p_Memsz :: uint64
  p_Align :: uint64

record Elf64Shdr =
  sh_Name :: uint32
  sh_Type :: uint32
  sh_Flags :: uint64
  sh_Addr :: uint64
  sh_Offset :: uint64
  sh_Size :: uint64
  sh_Link :: uint32
  sh_Info :: uint32
  sh_Addralign :: uint64
  sh_Entsize :: uint64

record Elf64ShdrWithName =
  shn_Name :: string
  shn_Type :: uint32
  shn_Flags :: uint64
  shn_Addr :: uint64
  shn_Offset :: uint64
  shn_Size :: uint64
  shn_Link :: uint32
  shn_Info :: uint32
  shn_Addralign :: uint64
  shn_Entsize :: uint64

text \<open>The zero values that \<^verbatim>\<open>var phdr Elf64Phdr\<close> and \<^verbatim>\<open>make\<close> give.\<close>

definition zero_Elf64Phdr :: Elf64Phdr where
  "zero_Elf64Phdr =
     \<lparr>p_Type = 0, p_Flags = 0, p_Offset = 0, p_Vaddr = 0, p_Paddr = 0, p_Filesz = 0,
      p_Memsz = 0, p_Align = 0\<rparr>"

definition zero_Elf64Shdr :: Elf64Shdr where
  "zero_Elf64Shdr =
     \<lparr>sh_Name = 0, sh_Type = 0, sh_Flags = 0, sh_Addr = 0, sh_Offset = 0, sh_Size = 0,
      sh_Link = 0, sh_Info = 0, sh_Addralign = 0, sh_Entsize = 0\<rparr>"

definition zero_Elf64ShdrWithName :: Elf64ShdrWithName where
  "zero_Elf64ShdrWithName =
     \<lparr>shn_Name = [], shn_Type = 0, shn_Flags = 0, shn_Addr = 0, shn_Offset = 0,
      shn_Size = 0, shn_Link = 0, shn_Info = 0, shn_Addralign = 0, shn_Entsize = 0\<rparr>"

subsection \<open>The byte source: \<^verbatim>\<open>*os.File\<close>\<close>

text \<open>
  An open regular file is its bytes, the current offset, and the largest offset that the
  operating system accepts in a seek on it (\<open>seek_limit\<close>).

  \<^verbatim>\<open>file.Seek(int64(offset), 0)\<close> sets the offset. It fails, leaving the offset where it
  was, when the converted offset is negative or beyond the limit; an offset past the end of
  the file is accepted. Every call in the source discards the result of \<^verbatim>\<open>Seek\<close>, so
  \<open>Seek\<close> returns the file only.
\<close>

record File =
  contents :: "byte list"
  pos :: nat
  seek_limit :: nat

definition Seek :: "File \<Rightarrow> uint64 \<Rightarrow> File" where
  "Seek file offset =
     (if sint offset < 0 \<or> seek_limit file < unat offset then file
      else file\<lparr>pos := unat offset\<rparr>)"

text \<open>
  \<^verbatim>\<open>io.ReadFull(file, buf)\<close> with \<open>len(buf) = n\<close>: the \<open>n\<close> bytes at the offset when the file
  has them; otherwise \<^verbatim>\<open>io.EOF\<close> when it has none there and \<^verbatim>\<open>io.ErrUnexpectedEOF\<close> when
  it has some. The offset moves past the bytes read in every case.
\<close>

definition ReadFull :: "File \<Rightarrow> nat \<Rightarrow> (error + byte list) \<times> File" where
  "ReadFull file n =
     (let avail = drop (pos file) (contents file) in
      if n \<le> length avail then (Inr (take n avail), file\<lparr>pos := pos file + n\<rparr>)
      else if avail = [] then (Inl EOF, file)
      else (Inl ErrUnexpectedEOF, file\<lparr>pos := pos file + length avail\<rparr>))"

subsection \<open>\<^verbatim>\<open>encoding/binary\<close>: little-endian decoding\<close>

text \<open>
  \<^verbatim>\<open>binary.LittleEndian.Uint16(b)\<close> is \<^verbatim>\<open>uint16(b[0]) | uint16(b[1])<<8\<close>, and likewise
  for 32 and 64 bits.
\<close>

definition Uint16 :: "byte list \<Rightarrow> uint16" where
  "Uint16 b = ucast (b ! 0) OR push_bit 8 (ucast (b ! 1))"

definition Uint32 :: "byte list \<Rightarrow> uint32" where
  "Uint32 b =
     ucast (b ! 0) OR push_bit 8 (ucast (b ! 1)) OR push_bit 16 (ucast (b ! 2))
       OR push_bit 24 (ucast (b ! 3))"

definition Uint64 :: "byte list \<Rightarrow> uint64" where
  "Uint64 b =
     ucast (b ! 0) OR push_bit 8 (ucast (b ! 1)) OR push_bit 16 (ucast (b ! 2))
       OR push_bit 24 (ucast (b ! 3)) OR push_bit 32 (ucast (b ! 4))
       OR push_bit 40 (ucast (b ! 5)) OR push_bit 48 (ucast (b ! 6))
       OR push_bit 56 (ucast (b ! 7))"

text \<open>
  The decoder of \<^verbatim>\<open>binary.Read\<close> walks the fields of a struct in their declared order,
  taking each value from the front of the buffer and moving on by its size. The decoder
  state is the part of the buffer not yet consumed.
\<close>

definition d_uint8s :: "nat \<Rightarrow> byte list \<Rightarrow> byte list \<times> byte list" where
  "d_uint8s n d = (take n d, drop n d)"

definition d_uint16 :: "byte list \<Rightarrow> uint16 \<times> byte list" where
  "d_uint16 d = (Uint16 d, drop 2 d)"

definition d_uint32 :: "byte list \<Rightarrow> uint32 \<times> byte list" where
  "d_uint32 d = (Uint32 d, drop 4 d)"

definition d_uint64 :: "byte list \<Rightarrow> uint64 \<times> byte list" where
  "d_uint64 d = (Uint64 d, drop 8 d)"

definition decode_Elf64Ehdr :: "byte list \<Rightarrow> Elf64Ehdr" where
  "decode_Elf64Ehdr buf =
     (let (ident, d) = d_uint8s 16 buf;
          (type, d) = d_uint16 d;
          (machine, d) = d_uint16 d;
          (version, d) = d_uint32 d;
          (entry, d) = d_uint64 d;
          (phoff, d) = d_uint64 d;
          (shoff, d) = d_uint64 d;
          (flags, d) = d_uint32 d;
          (ehsize, d) = d_uint16 d;
          (phentsize, d) = d_uint16 d;
          (phnum, d) = d_uint16 d;
          (shentsize, d) = d_uint16 d;
          (shnum, d) = d_uint16 d;
          (shstrndx, d) = d_uint16 d
      in \<lparr>e_Ident = ident, e_Type = type, e_Machine = machine, e_Version = version,
          e_Entry = entry, e_Phoff = phoff, e_Shoff = shoff, e_Flags = flags,
          e_Ehsize = ehsize, e_Phentsize = phentsize, e_Phnum = phnum,
          e_Shentsize = shentsize, e_Shnum = shnum, e_Shstrndx = shstrndx\<rparr>)"

definition decode_Elf64Phdr :: "byte list \<Rightarrow> Elf64Phdr" where
  "decode_Elf64Phdr buf =
     (let (type, d) = d_uint32 buf;
          (flags, d) = d_uint32 d;
          (offset, d) = d_uint64 d;
          (vaddr, d) = d_uint64 d;
          (paddr, d) = d_uint64 d;
          (filesz, d) = d_uint64 d;
          (memsz, d) = d_uint64 d;
          (align, d) = d_uint64 d
      in \<lparr>p_Type = type, p_Flags = flags, p_Offset = offset, p_Vaddr = vaddr,
          p_Paddr = paddr, p_Filesz = filesz, p_Memsz = memsz, p_Align = align\<rparr>)"

definition decode_Elf64Shdr :: "byte list \<Rightarrow> Elf64Shdr" where
  "decode_Elf64Shdr buf =
     (let (name, d) = d_uint32 buf;
          (type, d) = d_uint32 d;
          (flags, d) = d_uint64 d;
          (addr, d) = d_uint64 d;
          (offset, d) = d_uint64 d;
          (size, d) = d_uint64 d;
          (link, d) = d_uint32 d;
          (info, d) = d_uint32 d;
          (addralign, d) = d_uint64 d;
          (entsize, d) = d_uint64 d
      in \<lparr>sh_Name = name, sh_Type = type, sh_Flags = flags, sh_Addr = addr,
          sh_Offset = offset, sh_Size = size, sh_Link = link, sh_Info = info,
          sh_Addralign = addralign, sh_Entsize = entsize\<rparr>)"

text \<open>
  \<^verbatim>\<open>binary.Read(file, binary.LittleEndian, data)\<close>: the size of the value behind \<open>data\<close> is
  read with \<^verbatim>\<open>io.ReadFull\<close>; on an error the error is returned and \<open>data\<close> is left as it
  was, otherwise the buffer is decoded into \<open>data\<close>. The sizes are 64 bytes for
  \<^verbatim>\<open>Elf64Ehdr\<close>, 56 for \<^verbatim>\<open>Elf64Phdr\<close>, 64 for \<^verbatim>\<open>Elf64Shdr\<close>, and the length of the slice
  for a \<^verbatim>\<open>[]byte\<close>.
\<close>

definition binary_Read :: "File \<Rightarrow> nat \<Rightarrow> (byte list \<Rightarrow> 'a) \<Rightarrow> (error + 'a) \<times> File" where
  "binary_Read file n decode =
     (case ReadFull file n of
        (Inl err, file') \<Rightarrow> (Inl err, file')
      | (Inr buf, file') \<Rightarrow> (Inr (decode buf), file'))"

subsection \<open>\<^verbatim>\<open>ReadELFHeader\<close>\<close>

text \<open>
  \<^verbatim>\<open>
  func ReadELFHeader(file *os.File) (*Elf64Ehdr, error) {
      ehdr := new(Elf64Ehdr)
      err := binary.Read(file, binary.LittleEndian, ehdr)
      if err != nil {
          return nil, err
      }
      return ehdr, nil
  }
  \<close>
\<close>

definition ReadELFHeader :: "File \<Rightarrow> (error + Elf64Ehdr) \<times> File" where
  "ReadELFHeader file =
     (case binary_Read file 64 decode_Elf64Ehdr of
        (Inl err, file') \<Rightarrow> (Inl err, file')
      | (Inr ehdr, file') \<Rightarrow> (Inr ehdr, file'))"

subsection \<open>\<^verbatim>\<open>PrintProgramHeaders\<close> and \<^verbatim>\<open>JSONOutputProgramHeaders\<close>\<close>

text \<open>
  \<^verbatim>\<open>
  file.Seek(int64(ehdr.Phoff), 0)
  var phdrs []Elf64Phdr
  for i := 0; i < int(ehdr.Phnum); i++ {
      var phdr Elf64Phdr
      binary.Read(file, binary.LittleEndian, &phdr)
      phdrs = append(phdrs, phdr)
  }
  \<close>
  The result of \<^verbatim>\<open>binary.Read\<close> is discarded: after a failed read \<open>phdr\<close> is still the zero
  value, and it is appended all the same. \<open>programHeaders_loop\<close> runs the remaining
  \<open>n\<close> iterations. \<^verbatim>\<open>JSONOutputProgramHeaders\<close> hands \<open>phdrs\<close> to the JSON encoder;
  \<^verbatim>\<open>PrintProgramHeaders\<close> has the same loop and prints the fields of each \<open>phdr\<close> where the
  other appends it, so both are modelled by the sequence of records they render.
\<close>

fun programHeaders_loop :: "File \<Rightarrow> nat \<Rightarrow> Elf64Phdr list \<Rightarrow> Elf64Phdr list \<times> File" where
  "programHeaders_loop file 0 phdrs = (phdrs, file)"
| "programHeaders_loop file (Suc n) phdrs =
     (case binary_Read file 56 decode_Elf64Phdr of
        (Inl err, file') \<Rightarrow> programHeaders_loop file' n (phdrs @ [zero_Elf64Phdr])
      | (Inr phdr, file') \<Rightarrow> programHeaders_loop file' n (phdrs @ [phdr]))"

definition JSONOutputProgramHeaders :: "File \<Rightarrow> Elf64Ehdr \<Rightarrow> Elf64Phdr list \<times> File" where
  "JSONOutputProgramHeaders file ehdr =
     programHeaders_loop (Seek file (e_Phoff ehdr)) (unat (e_Phnum ehdr)) []"

definition PrintProgramHeaders :: "File \<Rightarrow> Elf64Ehdr \<Rightarrow> Elf64Phdr list \<times> File" where
  "PrintProgramHeaders file ehdr =
     programHeaders_loop (Seek file (e_Phoff ehdr)) (unat (e_Phnum ehdr)) []"

subsection \<open>\<^verbatim>\<open>dumpStringTable\<close>\<close>

text \<open>
  \<^verbatim>\<open>
  func dumpStringTable(file *os.File, offset, size uint64) []byte {
      file.Seek(int64(offset), 0)
      strData := make([]byte, size)
      binary.Read(file, binary.LittleEndian, &strData)
      return strData
  }
  \<close>
  \<^verbatim>\<open>make([]byte, size)\<close> panics when \<open>size\<close> exceeds what the run-time can allocate at all
  (\<open>maxAlloc\<close>, which is \<open>2 ^ 48\<close> bytes in the Go run-time for 64-bit Linux; a size of
  \<open>2 ^ 63\<close> or more is negative as an \<^verbatim>\<open>int\<close> and is refused by the same check). A machine
  that runs out of memory below that bound is outside this model. The result of
  \<^verbatim>\<open>binary.Read\<close> is discarded: after a failed read \<open>strData\<close> still holds \<open>size\<close> zero bytes.
\<close>

definition maxAlloc :: nat where
  "maxAlloc = 2 ^ 48"

definition dumpStringTable :: "File \<Rightarrow> uint64 \<Rightarrow> uint64 \<Rightarrow> (panic + byte list) \<times> File" where
  "dumpStringTable file offset sz =
     (let file1 = Seek file offset in
      if maxAlloc < unat sz then (Inl MakesliceLenOutOfRange, file1)
      else
        (let strData = replicate (unat sz) 0 in
         case binary_Read file1 (length strData) (\<lambda>buf. buf) of
           (Inl err, file2) \<Rightarrow> (Inr strData, file2)
         | (Inr bytes, file2) \<Rightarrow> (Inr bytes, file2)))"

subsection \<open>\<^verbatim>\<open>MakeSectionHeaderWithName\<close>\<close>

text \<open>
  \<^verbatim>\<open>
  shdrs := make([]Elf64Shdr, ehdr.Shnum)
  shdrwns := make([]Elf64ShdrWithName, ehdr.Shnum)
  for i := 0; i < int(ehdr.Shnum); i++ {
      binary.Read(file, binary.LittleEndian, &shdrs[i])
  }
  \<close>
  The first loop, from iteration \<open>i\<close> on. A failed read leaves \<open>shdrs[i]\<close> as it was.
\<close>

function sectionHeaders_loop ::
  "File \<Rightarrow> nat \<Rightarrow> nat \<Rightarrow> Elf64Shdr list \<Rightarrow> Elf64Shdr list \<times> File" where
  "sectionHeaders_loop file i n shdrs =
     (if i < n then
        (case binary_Read file 64 decode_Elf64Shdr of
           (Inl err, file') \<Rightarrow> sectionHeaders_loop file' (i + 1) n shdrs
         | (Inr shdr, file') \<Rightarrow> sectionHeaders_loop file' (i + 1) n (shdrs[i := shdr]))
      else (shdrs, file))"
  by pat_completeness auto
termination
  by (relation "measure (\<lambda>(file, i, n, shdrs). n - i)") auto

declare sectionHeaders_loop.simps [simp del]

text \<open>
  \<^verbatim>\<open>
  for i := 0; i < int(ehdr.Shnum); i++ {
      sectionName := getString(stringTable, shdrs[i].Name)
      shdrwns[i].Name = sectionName
      shdrwns[i].Type = shdrs[i].Type
      ...
      shdrwns[i].Entsize = shdrs[i].Entsize
  }
  \<close>
  The second loop, from iteration \<open>i\<close> on. A panic of \<^verbatim>\<open>getString\<close> ends the function.
  Both slices have length \<open>n\<close>, so the index \<open>i\<close> is in range in them.
\<close>

function names_loop ::
  "byte list \<Rightarrow> Elf64Shdr list \<Rightarrow> nat \<Rightarrow> nat \<Rightarrow> Elf64ShdrWithName list
     \<Rightarrow> panic + Elf64ShdrWithName list" where
  "names_loop stringTable shdrs i n shdrwns =
     (if i < n then
        (case getString stringTable (sh_Name (shdrs ! i)) of
           Inl p \<Rightarrow> Inl p
         | Inr sectionName \<Rightarrow>
             names_loop stringTable shdrs (i + 1) n
               (shdrwns[i := \<lparr>shn_Name = sectionName, shn_Type = sh_Type (shdrs ! i),
                  shn_Flags = sh_Flags (shdrs ! i), shn_Addr = sh_Addr (shdrs ! i),
                  shn_Offset = sh_Offset (shdrs ! i), shn_Size = sh_Size (shdrs ! i),
                  shn_Link = sh_Link (shdrs ! i), shn_Info = sh_Info (shdrs ! i),
                  shn_Addralign = sh_Addralign (shdrs ! i),
                  shn_Entsize = sh_Entsize (shdrs ! i)\<rparr>]))
      else Inr shdrwns)"
  by pat_completeness auto
termination
  by (relation "measure (\<lambda>(stringTable, shdrs, i, n, shdrwns). n - i)") auto

declare names_loop.simps [simp del]

text \<open>
  \<^verbatim>\<open>
  func MakeSectionHeaderWithName(file *os.File, ehdr *Elf64Ehdr) []Elf64ShdrWithName {
      file.Seek(int64(ehdr.Shoff), 0)
      shdrs := make([]Elf64Shdr, ehdr.Shnum)
      shdrwns := make([]Elf64ShdrWithName, ehdr.Shnum)
      ... first loop ...
      stringTable := dumpStringTable(file, shdrs[ehdr.Shstrndx].Offset,
                                     shdrs[ehdr.Shstrndx].Size)
      ... second loop ...
      return shdrwns
  }
  \<close>
  \<open>MakeSectionHeaderWithName_shdrs\<close> is the function up to the end of the first loop: the
  seek, the slice of zero-valued section headers, and the loop that reads into it. The
  index expression \<^verbatim>\<open>shdrs[ehdr.Shstrndx]\<close> is evaluated before \<^verbatim>\<open>dumpStringTable\<close> is
  called and panics when the index is not below the length of \<open>shdrs\<close>.
\<close>

definition MakeSectionHeaderWithName_shdrs :: "File \<Rightarrow> Elf64Ehdr \<Rightarrow> Elf64Shdr list \<times> File" where
  "MakeSectionHeaderWithName_shdrs file ehdr =
     sectionHeaders_loop (Seek file (e_Shoff ehdr)) 0 (unat (e_Shnum ehdr))
       (replicate (unat (e_Shnum ehdr)) zero_Elf64Shdr)"

definition MakeSectionHeaderWithName ::
  "File \<Rightarrow> Elf64Ehdr \<Rightarrow> (panic + Elf64ShdrWithName list) \<times> File" where
  "MakeSectionHeaderWithName file ehdr =
     (let shdrwns = replicate (unat (e_Shnum ehdr)) zero_Elf64ShdrWithName;
          (shdrs, file2) = MakeSectionHeaderWithName_shdrs file ehdr
      in if length shdrs \<le> unat (e_Shstrndx ehdr)
         then (Inl (IndexOutOfRange (unat (e_Shstrndx ehdr)) (length shdrs)), file2)
         else
           (case dumpStringTable file2 (sh_Offset (shdrs ! unat (e_Shstrndx ehdr)))
                   (sh_Size (shdrs ! unat (e_Shstrndx ehdr))) of
              (Inl p, file3) \<Rightarrow> (Inl p, file3)
            | (Inr stringTable, file3) \<Rightarrow>
                (names_loop stringTable shdrs 0 (unat (e_Shnum ehdr)) shdrwns, file3)))"

section \<open>Reference notions for the properties\<close>

text \<open>
  The bytes of a string table from \<open>index\<close> up to the next NUL byte or the end of the
  table: the name that the ELF format stores at \<open>index\<close>.
\<close>

definition scan_to_NUL :: "byte list \<Rightarrow> nat \<Rightarrow> byte list" where
  "scan_to_NUL table index = takeWhile (\<lambda>b. b \<noteq> 0) (drop index table)"

text \<open>The bytes of a file from the current offset on.\<close>

definition unread :: "File \<Rightarrow> byte list" where
  "unread file = drop (pos file) (contents file)"

text \<open>
  The number that a sequence of bytes denotes in little-endian order: the byte at position
  \<open>i\<close> counts \<open>256 ^ i\<close>.
\<close>

fun le_nat :: "byte list \<Rightarrow> nat" where
  "le_nat [] = 0"
| "le_nat (b # bs) = unat b + 256 * le_nat bs"

subsection \<open>An encoder for the file header\<close>

text \<open>
  Modelled from the spec: the program has no encoder. The spec speaks of re-encoding a
  decoded file header with the same little-endian fixed layout (16-byte ident, then
  2\<times>uint16, uint32, 3\<times>uint64, uint32, 5\<times>uint16, in the order of the fields). A value
  of 16 bits is written the way \<^verbatim>\<open>binary.LittleEndian.PutUint16\<close> writes it: the byte at
  position \<open>i\<close> is \<^verbatim>\<open>byte(v >> (8*i))\<close>.
\<close>

definition PutUint16 :: "uint16 \<Rightarrow> byte list" where
  "PutUint16 v = [ucast v, ucast (drop_bit 8 v)]"

text \<open>Modelled from the spec: likewise for 32 bits, as \<^verbatim>\<open>PutUint32\<close> writes them.\<close>

definition PutUint32 :: "uint32 \<Rightarrow> byte list" where
  "PutUint32 v = [ucast v, ucast (drop_bit 8 v), ucast (drop_bit 16 v), ucast (drop_bit 24 v)]"

text \<open>Modelled from the spec: likewise for 64 bits, as \<^verbatim>\<open>PutUint64\<close> writes them.\<close>

definition PutUint64 :: "uint64 \<Rightarrow> byte list" where
  "PutUint64 v =
     [ucast v, ucast (drop_bit 8 v), ucast (drop_bit 16 v), ucast (drop_bit 24 v),
      ucast (drop_bit 32 v), ucast (drop_bit 40 v), ucast (drop_bit 48 v),
      ucast (drop_bit 56 v)]"

text \<open>
  Modelled from the spec: the re-encoding of a file header, field after field in the order
  of the record.
\<close>

definition encode_Elf64Ehdr :: "Elf64Ehdr \<Rightarrow> byte list" where
  "encode_Elf64Ehdr ehdr =
     e_Ident ehdr @ PutUint16 (e_Type ehdr) @ PutUint16 (e_Machine ehdr)
       @ PutUint32 (e_Version ehdr) @ PutUint64 (e_Entry ehdr) @ PutUint64 (e_Phoff ehdr)
       @ PutUint64 (e_Shoff ehdr) @ PutUint32 (e_Flags ehdr) @ PutUint16 (e_Ehsize ehdr)
       @ PutUint16 (e_Phentsize ehdr) @ PutUint16 (e_Phnum ehdr)
       @ PutUint16 (e_Shentsize ehdr) @ PutUint16 (e_Shnum ehdr)
       @ PutUint16 (e_Shstrndx ehdr)"

subsection \<open>The record that one iteration of a table loop yields\<close>

text \<open>
  What the program-header loop appends when \<^verbatim>\<open>binary.Read\<close> is called at offset \<open>off\<close> of
  a file with the bytes \<open>bytes\<close>: the decoded record when the 56 bytes are there, and the
  zero value otherwise.
\<close>

definition phdr_at :: "byte list \<Rightarrow> nat \<Rightarrow> Elf64Phdr" where
  "phdr_at bytes off =
     (if off + 56 \<le> length bytes then decode_Elf64Phdr (take 56 (drop off bytes))
      else zero_Elf64Phdr)"

text \<open>
  Likewise for the section-header loop, which reads into a slot that holds the zero value:
  the decoded record when the 64 bytes are there, and the zero value otherwise.
\<close>

definition shdr_at :: "byte list \<Rightarrow> nat \<Rightarrow> Elf64Shdr" where
  "shdr_at bytes off =
     (if off + 64 \<le> length bytes then decode_Elf64Shdr (take 64 (drop off bytes))
      else zero_Elf64Shdr)"

subsection \<open>Resolved section headers\<close>

text \<open>
  A section header with its name resolved against a string table: the name is the string
  that \<open>getString\<close> finds at the name index of the raw header, and every other field is
  that of the raw header.
\<close>

definition resolved :: "byte list \<Rightarrow> Elf64Shdr \<Rightarrow> Elf64ShdrWithName \<Rightarrow> bool" where
  "resolved stringTable shdr shdrwn \<longleftrightarrow>
     getString stringTable (sh_Name shdr) = Inr (shn_Name shdrwn)
     \<and> shn_Type shdrwn = sh_Type shdr \<and> shn_Flags shdrwn = sh_Flags shdr
     \<and> shn_Addr shdrwn = sh_Addr shdr \<and> shn_Offset shdrwn = sh_Offset shdr
     \<and> shn_Size shdrwn = sh_Size shdr \<and> shn_Link shdrwn = sh_Link shdr
     \<and> shn_Info shdrwn = sh_Info shdr \<and> shn_Addralign shdrwn = sh_Addralign shdr
     \<and> shn_Entsize shdrwn = sh_Entsize shdr"

subsection \<open>Concrete inputs\<close>

text \<open>
  A small x86-64 executable of 344 bytes. Its file header: type 2, machine 62, version 1,
  entry point \<open>0x400078\<close>, one program header at offset 64, three section headers at
  offset 152, the section names in section 2.
\<close>

definition example_header :: "byte list" where
  "example_header =
     [0x7f, 0x45, 0x4c, 0x46, 2, 1, 1, 0, 0, 0, 0, 0, 0, 0, 0, 0,
      2, 0, 62, 0, 1, 0, 0, 0,
      0x78, 0, 0x40, 0, 0, 0, 0, 0,
      64, 0, 0, 0, 0, 0, 0, 0,
      152, 0, 0, 0, 0, 0, 0, 0,
      0, 0, 0, 0, 64, 0, 56, 0, 1, 0, 64, 0, 3, 0, 2, 0]"

definition example_ehdr :: Elf64Ehdr where
  "example_ehdr =
     \<lparr>e_Ident = [0x7f, 0x45, 0x4c, 0x46, 2, 1, 1, 0, 0, 0, 0, 0, 0, 0, 0, 0],
      e_Type = 2, e_Machine = 62, e_Version = 1, e_Entry = 0x400078, e_Phoff = 64,
      e_Shoff = 152, e_Flags = 0, e_Ehsize = 64, e_Phentsize = 56, e_Phnum = 1,
      e_Shentsize = 64, e_Shnum = 3, e_Shstrndx = 2\<rparr>"

text \<open>
  Its program header: a loadable segment (type 1) with flags 5 at file offset 0, mapped at
  \<open>0x400000\<close>, 344 bytes in the file and in memory, aligned to \<open>0x1000\<close>.
\<close>

definition example_phdr :: "byte list" where
  "example_phdr =
     [1, 0, 0, 0, 5, 0, 0, 0,
      0, 0, 0, 0, 0, 0, 0, 0,
      0, 0, 0x40, 0, 0, 0, 0, 0,
      0, 0, 0x40, 0, 0, 0, 0, 0,
      0x58, 1, 0, 0, 0, 0, 0, 0,
      0x58, 1, 0, 0, 0, 0, 0, 0,
      0, 0x10, 0, 0, 0, 0, 0, 0]"

text \<open>
  Eight bytes of code at offset 120, and at offset 128 the string table of 17 bytes with the
  names \<open>.text\<close> (index 1) and \<open>.shstrtab\<close> (index 7), padded to offset 152.
\<close>

definition example_text :: "byte list" where
  "example_text = [0xb8, 0x3c, 0, 0, 0, 0x0f, 0x05, 0x90]"

definition example_strtab :: "byte list" where
  "example_strtab =
     [0, 46, 116, 101, 120, 116, 0, 46, 115, 104, 115, 116, 114, 116, 97, 98, 0]"

text \<open>
  The section header table: the null section, \<open>.text\<close> (type 1, flags 6, address
  \<open>0x400078\<close>, offset 120, size 8) and \<open>.shstrtab\<close> (type 3, offset 128, size 17).
\<close>

definition example_shdrs :: "byte list" where
  "example_shdrs =
     [0, 0, 0, 0, 0, 0, 0, 0, 0, 0, 0, 0, 0, 0, 0, 0,
      0, 0, 0, 0, 0, 0, 0, 0, 0, 0, 0, 0, 0, 0, 0, 0,
      0, 0, 0, 0, 0, 0, 0, 0, 0, 0, 0, 0, 0, 0, 0, 0,
      0, 0, 0, 0, 0, 0, 0, 0, 0, 0, 0, 0, 0, 0, 0, 0,
      1, 0, 0, 0, 1, 0, 0, 0, 6, 0, 0, 0, 0, 0, 0, 0,
      0x78, 0, 0x40, 0, 0, 0, 0, 0, 120, 0, 0, 0, 0, 0, 0, 0,
      8, 0, 0, 0, 0, 0, 0, 0, 0, 0, 0, 0, 0, 0, 0, 0,
      1, 0, 0, 0, 0, 0, 0, 0, 0, 0, 0, 0, 0, 0, 0, 0,
      7, 0, 0, 0, 3, 0, 0, 0, 0, 0, 0, 0, 0, 0, 0, 0,
      0, 0, 0, 0, 0, 0, 0, 0, 128, 0, 0, 0, 0, 0, 0, 0,
      17, 0, 0, 0, 0, 0, 0, 0, 0, 0, 0, 0, 0, 0, 0, 0,
      1, 0, 0, 0, 0, 0, 0, 0, 0, 0, 0, 0, 0, 0, 0, 0]"

definition example_file :: File where
  "example_file =
     \<lparr>contents = example_header @ example_phdr @ example_text @ example_strtab
        @ [0, 0, 0, 0, 0, 0, 0] @ example_shdrs,
      pos = 64, seek_limit = 2 ^ 63 - 1\<rparr>"

section \<open>Name resolution: \<open>getString\<close>\<close>

subsection \<open>What the loop computes\<close>

text \<open>
  The loop stops at the first NUL byte at or after \<open>end\<close> among the first
  \<open>uint32(len(data))\<close> bytes of the table, or at that bound.
\<close>

lemma uint32_of_len_le: "unat (word_of_nat n :: uint32) \<le> n"
  by (simp add: unat_of_nat)

lemma uint32_succ:
  fixes e l :: uint32
  assumes "e < l"
  shows "unat (e + 1) = Suc (unat e)"
proof -
  from assms have "unat e < unat l"
    by (simp add: word_less_nat_alt)
  moreover have "unat l < 2 ^ LENGTH(32)"
    by (rule unsigned_less)
  ultimately have "unat e + unat (1 :: uint32) < 2 ^ LENGTH(32)"
    by simp
  then have "unat (e + 1) = unat e + unat (1 :: uint32)"
    by (simp only: unat_add_lem)
  then show ?thesis
    by simp
qed

lemma getString_loop_unat:
  "unat (getString_loop data e) =
     unat e + length (takeWhile (\<lambda>b. b \<noteq> 0)
       (drop (unat e) (take (unat (word_of_nat (length data) :: uint32)) data)))"
proof (induction data e rule: getString_loop.induct)
  case (1 data e)
  let ?M = "unat (word_of_nat (length data) :: uint32)"
  have M: "?M \<le> length data"
    by (rule uint32_of_len_le)
  show ?case
  proof (cases "e < word_of_nat (length data) \<and> data ! unat e \<noteq> 0")
    case True
    then have lt: "unat e < ?M"
      by (simp add: word_less_nat_alt)
    from True have suc: "unat (e + 1) = Suc (unat e)"
      by (blast intro: uint32_succ)
    from lt M have "drop (unat e) (take ?M data) = data ! unat e # drop (Suc (unat e)) (take ?M data)"
      by (simp flip: Cons_nth_drop_Suc)
    with True have "takeWhile (\<lambda>b. b \<noteq> 0) (drop (unat e) (take ?M data)) =
        data ! unat e # takeWhile (\<lambda>b. b \<noteq> 0) (drop (Suc (unat e)) (take ?M data))"
      by simp
    moreover have "getString_loop data e = getString_loop data (e + 1)"
      using True by (subst getString_loop.simps) simp
    ultimately show ?thesis
      using "1.IH" [OF True] suc by simp
  next
    case False
    then have stop: "getString_loop data e = e"
      by (subst getString_loop.simps) auto
    show ?thesis
    proof (cases "unat e < ?M")
      case True
      with False have z: "data ! unat e = 0"
        by (simp add: word_less_nat_alt)
      from True M have "drop (unat e) (take ?M data) = data ! unat e # drop (Suc (unat e)) (take ?M data)"
        by (simp flip: Cons_nth_drop_Suc)
      with z stop show ?thesis
        by simp
    next
      case False
      with stop show ?thesis
        by simp
    qed
  qed
qed

lemma getString_eq:
  "getString data index =
     (if unat index \<le> length data
      then Inr (string_of_bytes (takeWhile (\<lambda>b. b \<noteq> 0)
             (drop (unat index) (take (unat (word_of_nat (length data) :: uint32)) data))))
      else Inl (SliceBoundsOutOfRange (unat index) (unat index)))"
proof -
  let ?M = "unat (word_of_nat (length data) :: uint32)"
  let ?run = "takeWhile (\<lambda>b. b \<noteq> 0) (drop (unat index) (take ?M data))"
  have M: "?M \<le> length data"
    by (rule uint32_of_len_le)
  have e: "unat (getString_loop data index) = unat index + length ?run"
    by (rule getString_loop_unat)
  have len: "length ?run \<le> ?M - unat index"
    using length_takeWhile_le [of "\<lambda>b. b \<noteq> 0" "drop (unat index) (take ?M data)"] by simp
  show ?thesis
  proof (cases "unat index \<le> length data")
    case True
    have "?run = take (length ?run) (drop (unat index) (take ?M data))"
      by (metis takeWhile_eq_take)
    also have "\<dots> = take (length ?run) (take (?M - unat index) (drop (unat index) data))"
      by (simp add: drop_take)
    also have "\<dots> = take (length ?run) (drop (unat index) data)"
      using len by (simp add: min_absorb1)
    finally have run: "take (length ?run) (drop (unat index) data) = ?run"
      by simp
    have "unat index + length ?run \<le> length data"
    proof (cases "unat index \<le> ?M")
      case True
      with len M show ?thesis by linarith
    next
      case False
      then have "length ?run = 0" by simp
      with \<open>unat index \<le> length data\<close> show ?thesis by simp
    qed
    with True e run show ?thesis
      by (simp add: getString_def Let_def)
  next
    case False
    with M have "length ?run = 0"
      by simp
    with False e show ?thesis
      by (simp add: getString_def Let_def)
  qed
qed

lemma getString_small:
  assumes "length data < 2 ^ 32" and "unat index \<le> length data"
  shows "getString data index = Inr (string_of_bytes (scan_to_NUL data (unat index)))"
proof -
  from assms(1) have "unat (word_of_nat (length data) :: uint32) = length data"
    by (simp add: unat_of_nat)
  with assms(2) show ?thesis
    by (simp add: getString_eq scan_to_NUL_def)
qed

lemma getString_replicate:
  assumes "b \<noteq> 0"
  shows "getString (replicate n b) 0
    = Inr (string_of_bytes (replicate (unat (word_of_nat n :: uint32)) b))"
proof -
  have "unat (word_of_nat n :: uint32) \<le> n"
    by (rule uint32_of_len_le)
  with assms show ?thesis
    by (simp add: getString_eq takeWhile_replicate min_absorb1)
qed

lemma scan_to_NUL_replicate: "b \<noteq> 0 \<Longrightarrow> scan_to_NUL (replicate n b) 0 = replicate n b"
  by (simp add: scan_to_NUL_def takeWhile_replicate)

lemma char_of_byte_NUL: "char_of (unat (b :: byte)) = CHR 0x00 \<longleftrightarrow> b = 0"
proof -
  have "unat b < 2 ^ 8"
    using unsigned_less [of b] by simp
  then have "take_bit 8 (unat b) = unat b"
    by (simp only: take_bit_nat_eq_self)
  then show ?thesis
    by (simp add: char_of_eq_iff unat_eq_0)
qed

lemma NUL_string_of_bytes: "CHR 0x00 \<in> set (string_of_bytes bs) \<longleftrightarrow> 0 \<in> set bs"
proof (induction bs)
  case Nil
  show ?case
    by (simp add: string_of_bytes_def)
next
  case (Cons b bs)
  have "CHR 0x00 = char_of (unat b) \<longleftrightarrow> 0 = b"
    using char_of_byte_NUL [of b] by (simp only: eq_commute)
  with Cons show ?case
    by (simp add: string_of_bytes_def)
qed

lemma scan_to_NUL_take:
  "scan_to_NUL data i = take (length (scan_to_NUL data i)) (drop i data)"
  unfolding scan_to_NUL_def by (metis takeWhile_eq_take)

lemma scan_to_NUL_no_NUL: "0 \<notin> set (scan_to_NUL data i)"
  unfolding scan_to_NUL_def by (auto dest: set_takeWhileD)

lemma scan_to_NUL_length: "length (scan_to_NUL data i) \<le> length data - i"
  unfolding scan_to_NUL_def
  using length_takeWhile_le [of "\<lambda>b. b \<noteq> 0" "drop i data"] by simp

lemma scan_to_NUL_longest:
  assumes "length (scan_to_NUL data i) < m" and "m \<le> length data - i"
  shows "0 \<in> set (take m (drop i data))"
proof -
  let ?xs = "drop i data"
  let ?n = "length (takeWhile (\<lambda>b. b \<noteq> 0) ?xs)"
  from assms have n: "?n < length ?xs"
    by (simp add: scan_to_NUL_def)
  then have "\<not> (?xs ! ?n \<noteq> 0)"
    by (rule nth_length_takeWhile)
  then have "?xs ! ?n = 0"
    by simp
  moreover from assms n have "?xs ! ?n = take m ?xs ! ?n"
    by (simp add: scan_to_NUL_def)
  moreover from assms n have "?n < length (take m ?xs)"
    by (simp add: scan_to_NUL_def)
  ultimately show ?thesis
    by (metis nth_mem)
qed

subsection \<open>Indices at or beyond the end of the table\<close>

text \<open>
  Claim C2 says that for every index at or beyond the length of the table \<open>getString\<close>
  returns the empty string and does not fail. The source does so for the index equal to the
  length only: the loop does not run, and \<^verbatim>\<open>data[index:end]\<close> with \<open>index = end\<close> beyond the
  length of the slice panics.
\<close>

theorem getString_out_of_range_counterexample:
  "length [97 :: byte] \<le> unat (2 :: uint32) \<and> getString [97] 2 \<noteq> Inr ''''"
  by (simp add: getString_eq)

text \<open>
  C2 as the source has it: at the index equal to the length of the table the result is the
  empty string; at every index beyond it \<open>getString\<close> panics with slice bounds out of range
  and returns no string.
\<close>

theorem getString_out_of_range:
  assumes "length data \<le> unat index"
  shows "getString data index =
     (if unat index = length data then Inr ''''
      else Inl (SliceBoundsOutOfRange (unat index) (unat index)))"
proof -
  have "unat (word_of_nat (length data) :: uint32) \<le> length data"
    by (rule uint32_of_len_le)
  with assms have "drop (unat index) (take (unat (word_of_nat (length data) :: uint32)) data) = []"
    by simp
  with assms show ?thesis
    by (simp add: getString_eq string_of_bytes_def)
qed

theorem getString_out_of_range_witness:
  "length [97 :: byte, 0] \<le> unat (2 :: uint32) \<and> getString [97, 0] 2 = Inr ''''
   \<and> length [97 :: byte, 0] \<le> unat (5 :: uint32)
   \<and> getString [97, 0] 5 = Inl (SliceBoundsOutOfRange 5 5)"
proof -
  have h1: "length [97 :: byte, 0] \<le> unat (2 :: uint32)"
    by simp
  have h2: "length [97 :: byte, 0] \<le> unat (5 :: uint32)"
    by simp
  from getString_out_of_range [OF h1] getString_out_of_range [OF h2] h1 h2 show ?thesis
    by simp
qed

subsection \<open>Scanning to the next NUL\<close>

text \<open>
  Claim C5 says that for every string table \<open>getString\<close> returns the bytes from the index
  up to the next NUL byte or the end of the table. It fails beyond the end of the table
  (index 7 in the table of six bytes) and for a table whose length does not fit 32 bits:
  with \<open>2 ^ 32 + 1\<close> bytes, \<^verbatim>\<open>uint32(len(data))\<close> is 1 and the scan stops after one byte.
\<close>

theorem getString_scan_counterexample:
  "getString [97, 98, 0, 99, 100, 0] 7 \<noteq> Inr (string_of_bytes (scan_to_NUL [97, 98, 0, 99, 100, 0] 7))
   \<and> getString (replicate 4294967297 97) 0
       \<noteq> Inr (string_of_bytes (scan_to_NUL (replicate 4294967297 97) 0))"
proof -
  have a: "getString [97, 98, 0, 99, 100, 0] 7 \<noteq> Inr (string_of_bytes (scan_to_NUL [97, 98, 0, 99, 100, 0] 7))"
    by (simp add: getString_eq)
  have m: "unat (word_of_nat 4294967297 :: uint32) = 1"
    by simp
  have "getString (replicate 4294967297 97) 0
      = Inr (string_of_bytes (replicate (unat (word_of_nat 4294967297 :: uint32)) 97))"
    by (rule getString_replicate) simp
  then have g: "getString (replicate 4294967297 97) 0 = Inr (string_of_bytes (replicate 1 97))"
    by (simp only: m)
  have s: "scan_to_NUL (replicate 4294967297 97) 0 = replicate 4294967297 (97 :: byte)"
    by (rule scan_to_NUL_replicate) simp
  have "length (string_of_bytes (replicate 4294967297 97)) \<noteq> length (string_of_bytes (replicate 1 97))"
    by (simp only: string_of_bytes_def length_map length_replicate)
  then have "string_of_bytes (replicate 4294967297 97) \<noteq> string_of_bytes (replicate 1 97)"
    by metis
  with g s have b: "getString (replicate 4294967297 97) 0
       \<noteq> Inr (string_of_bytes (scan_to_NUL (replicate 4294967297 97) 0))"
    by (metis sum.inject(2))
  from a b show ?thesis
    by (intro conjI)
qed

text \<open>
  C5 as the source has it: for a table shorter than \<open>2 ^ 32\<close> bytes and an index not beyond
  its length, \<open>getString\<close> returns the bytes from the index up to the next NUL byte or the
  end of the table, and up to the end when no NUL byte follows the index. In the table
  \<open>[97, 98, 0, 99, 100, 0]\<close> index 0 gives \<open>ab\<close>, index 3 gives \<open>cd\<close>, and indices 6 and 2
  give the empty string.
\<close>

theorem getString_scan:
  "(length data < 2 ^ 32 \<and> unat index \<le> length data \<longrightarrow>
      getString data index = Inr (string_of_bytes (scan_to_NUL data (unat index)))
      \<and> (0 \<notin> set (drop (unat index) data) \<longrightarrow>
           getString data index = Inr (string_of_bytes (drop (unat index) data))))
   \<and> getString [97, 98, 0, 99, 100, 0] 0 = Inr ''ab''
   \<and> getString [97, 98, 0, 99, 100, 0] 3 = Inr ''cd''
   \<and> getString [97, 98, 0, 99, 100, 0] 6 = Inr ''''
   \<and> getString [97, 98, 0, 99, 100, 0] 2 = Inr ''''"
proof -
  have gen: "getString data index = Inr (string_of_bytes (scan_to_NUL data (unat index)))"
    if "length data < 2 ^ 32" and "unat index \<le> length data"
    using that by (rule getString_small)
  have "scan_to_NUL data (unat index) = drop (unat index) data"
    if "0 \<notin> set (drop (unat index) data)"
    unfolding scan_to_NUL_def using that by (auto simp: takeWhile_eq_all_conv)
  with gen have g: "length data < 2 ^ 32 \<and> unat index \<le> length data \<longrightarrow>
      getString data index = Inr (string_of_bytes (scan_to_NUL data (unat index)))
      \<and> (0 \<notin> set (drop (unat index) data) \<longrightarrow>
           getString data index = Inr (string_of_bytes (drop (unat index) data)))"
    by simp
  have e0: "getString [97, 98, 0, 99, 100, 0] 0 = Inr ''ab''"
    by code_simp
  have e3: "getString [97, 98, 0, 99, 100, 0] 3 = Inr ''cd''"
    by code_simp
  have e6: "getString [97, 98, 0, 99, 100, 0] 6 = Inr ''''"
    by code_simp
  have e2: "getString [97, 98, 0, 99, 100, 0] 2 = Inr ''''"
    by code_simp
  from g e0 e3 e6 e2 show ?thesis
    by blast
qed

theorem getString_scan_witness:
  "length [97 :: byte, 98, 0, 99] < 2 ^ 32 \<and> unat (3 :: uint32) \<le> length [97 :: byte, 98, 0, 99]
   \<and> 0 \<notin> set (drop (unat (3 :: uint32)) [97 :: byte, 98, 0, 99])
   \<and> scan_to_NUL [97, 98, 0, 99] 3 = [99]
   \<and> getString [97, 98, 0, 99] 3 = Inr ''c''"
proof -
  have h: "length [97 :: byte, 98, 0, 99] < 2 ^ 32 \<and> unat (3 :: uint32) \<le> length [97 :: byte, 98, 0, 99]"
    by simp
  have n: "0 \<notin> set (drop (unat (3 :: uint32)) [97 :: byte, 98, 0, 99])"
    by simp
  have s: "scan_to_NUL [97, 98, 0, 99] 3 = [99]"
    by (simp add: scan_to_NUL_def)
  have c: "string_of_bytes [99] = ''c''"
    by code_simp
  from getString_scan [of "[97, 98, 0, 99]" 3] h n have
    "getString [97, 98, 0, 99] 3 = Inr (string_of_bytes (drop (unat (3 :: uint32)) [97, 98, 0, 99]))"
    by blast
  with h n s c show ?thesis
    by simp
qed

subsection \<open>The result is the longest run without a NUL\<close>

text \<open>
  Claim C10 says that for every table and every index not beyond its length the result has
  no NUL byte and is the longest run of the table without a NUL byte that starts at the
  index. For a table of \<open>2 ^ 32\<close> bytes \<^verbatim>\<open>uint32(len(data))\<close> is 0, the loop does not run,
  and the result is empty whatever the table holds.
\<close>

theorem getString_longest_run_counterexample:
  "unat (0 :: uint32) \<le> length (replicate 4294967296 (65 :: byte))
   \<and> getString (replicate 4294967296 65) 0 = Inr []
   \<and> take 1 (drop (unat (0 :: uint32)) (replicate 4294967296 (65 :: byte))) = [65]
   \<and> scan_to_NUL (replicate 4294967296 65) 0 \<noteq> []"
proof -
  have m: "unat (word_of_nat 4294967296 :: uint32) = 0"
    by simp
  have "getString (replicate 4294967296 65) 0
      = Inr (string_of_bytes (replicate (unat (word_of_nat 4294967296 :: uint32)) 65))"
    by (rule getString_replicate) simp
  then have g: "getString (replicate 4294967296 65) 0 = Inr []"
    by (simp only: m replicate.simps string_of_bytes_def list.map)
  have "scan_to_NUL (replicate 4294967296 65) 0 = replicate 4294967296 (65 :: byte)"
    by (rule scan_to_NUL_replicate) simp
  moreover have "length (replicate 4294967296 (65 :: byte)) \<noteq> length ([] :: byte list)"
    by (simp only: length_replicate list.size)
  ultimately have s: "scan_to_NUL (replicate 4294967296 65) 0 \<noteq> []"
    by metis
  have l: "unat (0 :: uint32) \<le> length (replicate 4294967296 (65 :: byte))"
    by (simp only: unat_0 le0)
  have "take 1 (replicate 4294967296 (65 :: byte)) = replicate (min 1 4294967296) 65"
    by (simp only: take_replicate)
  also have "\<dots> = [65]"
    by simp
  finally have t: "take 1 (drop (unat (0 :: uint32)) (replicate 4294967296 (65 :: byte))) = [65]"
    by (simp only: unat_0 drop_0)
  from l g t s show ?thesis
    by (intro conjI)
qed

text \<open>
  C10 as the source has it: for a table shorter than \<open>2 ^ 32\<close> bytes and an index not beyond
  its length, the result is the text of a run of the table that starts at the index, has
  no NUL byte, cannot be extended (every longer run from the index holds a NUL byte), and
  is no longer than the table's length minus the index.
\<close>

theorem getString_longest_run:
  assumes "length data < 2 ^ 32" and "unat index \<le> length data"
  shows "getString data index = Inr (string_of_bytes (scan_to_NUL data (unat index)))
    \<and> CHR 0x00 \<notin> set (string_of_bytes (scan_to_NUL data (unat index)))
    \<and> scan_to_NUL data (unat index)
        = take (length (scan_to_NUL data (unat index))) (drop (unat index) data)
    \<and> 0 \<notin> set (scan_to_NUL data (unat index))
    \<and> (\<forall>m. length (scan_to_NUL data (unat index)) < m \<and> m \<le> length data - unat index
          \<longrightarrow> 0 \<in> set (take m (drop (unat index) data)))
    \<and> length (string_of_bytes (scan_to_NUL data (unat index))) \<le> length data - unat index"
proof -
  have "getString data index = Inr (string_of_bytes (scan_to_NUL data (unat index)))"
    using assms by (rule getString_small)
  moreover have "CHR 0x00 \<notin> set (string_of_bytes (scan_to_NUL data (unat index)))"
    by (simp add: NUL_string_of_bytes scan_to_NUL_no_NUL)
  moreover have "scan_to_NUL data (unat index)
        = take (length (scan_to_NUL data (unat index))) (drop (unat index) data)"
    by (rule scan_to_NUL_take)
  moreover have "0 \<notin> set (scan_to_NUL data (unat index))"
    by (rule scan_to_NUL_no_NUL)
  moreover have "\<forall>m. length (scan_to_NUL data (unat index)) < m \<and> m \<le> length data - unat index
          \<longrightarrow> 0 \<in> set (take m (drop (unat index) data))"
    by (blast intro: scan_to_NUL_longest)
  moreover have "length (string_of_bytes (scan_to_NUL data (unat index))) \<le> length data - unat index"
    by (simp add: string_of_bytes_def scan_to_NUL_length)
  ultimately show ?thesis
    by blast
qed

theorem getString_longest_run_witness:
  "length [97 :: byte, 98, 0, 99, 100, 0] < 2 ^ 32
   \<and> unat (3 :: uint32) \<le> length [97 :: byte, 98, 0, 99, 100, 0]
   \<and> getString [97, 98, 0, 99, 100, 0] 3 = Inr ''cd''
   \<and> scan_to_NUL [97, 98, 0, 99, 100, 0] 3 = [99, 100]
   \<and> length (scan_to_NUL [97, 98, 0, 99, 100, 0] 3) < 3
   \<and> 3 \<le> length [97 :: byte, 98, 0, 99, 100, 0] - 3
   \<and> (0 :: byte) \<in> set (take 3 (drop 3 [97, 98, 0, 99, 100, 0]))"
proof -
  have h1: "length [97 :: byte, 98, 0, 99, 100, 0] < 2 ^ 32"
    by simp
  have h2: "unat (3 :: uint32) \<le> length [97 :: byte, 98, 0, 99, 100, 0]"
    by simp
  have s: "scan_to_NUL [97, 98, 0, 99, 100, 0] (unat (3 :: uint32)) = [99, 100]"
    by (simp add: scan_to_NUL_def)
  have c: "string_of_bytes [99, 100] = ''cd''"
    by code_simp
  from getString_longest_run [OF h1 h2] h1 h2 s c show ?thesis
    by simp
qed

section \<open>Decoding the file header: \<open>ReadELFHeader\<close>\<close>

subsection \<open>Little-endian values\<close>

text \<open>
  The words that \<open>Uint16\<close>, \<open>Uint32\<close> and \<open>Uint64\<close> assemble with shifts and \<open>OR\<close> are the
  little-endian values of the first two, four and eight bytes of the buffer.
\<close>

lemma le_nat_bound: "le_nat bs < 256 ^ length bs"
proof (induction bs)
  case Nil
  show ?case by simp
next
  case (Cons b bs)
  have "unat b < 256"
    using unsigned_less [of b] by simp
  with Cons show ?case
    by simp
qed

lemma byte_or_shift:
  fixes w :: "'a::len word" and b :: byte
  shows "ucast b OR push_bit 8 w = ucast b + 256 * w"
proof -
  have "ucast b + push_bit 8 w = ucast b OR push_bit 8 w"
    by (rule disjunctive_add) (auto simp: bit_simps dest: bit_imp_le_length)
  then show ?thesis
    by (simp add: push_bit_eq_mult mult.commute)
qed

lemma Uint32_nested:
  "Uint32 b = ucast (b ! 0) OR push_bit 8 (ucast (b ! 1) OR push_bit 8 (ucast (b ! 2)
      OR push_bit 8 (ucast (b ! 3))))"
  by (simp add: Uint32_def or.assoc)

lemma Uint64_nested:
  "Uint64 b = ucast (b ! 0) OR push_bit 8 (ucast (b ! 1) OR push_bit 8 (ucast (b ! 2)
      OR push_bit 8 (ucast (b ! 3) OR push_bit 8 (ucast (b ! 4) OR push_bit 8 (ucast (b ! 5)
      OR push_bit 8 (ucast (b ! 6) OR push_bit 8 (ucast (b ! 7))))))))"
  by (simp add: Uint64_def or.assoc)

lemma unat_Uint16_Cons: "unat (Uint16 (b0 # b1 # r)) = le_nat [b0, b1]"
proof -
  have "Uint16 (b0 # b1 # r) = ucast b0 + 256 * ucast b1"
    by (simp add: Uint16_def byte_or_shift)
  also have "\<dots> = word_of_nat (le_nat [b0, b1])"
    by (simp add: of_nat_unat)
  finally have "unat (Uint16 (b0 # b1 # r)) = le_nat [b0, b1] mod 2 ^ LENGTH(16)"
    by (simp only: unat_of_nat)
  moreover have "le_nat [b0, b1] < 256 ^ length [b0, b1]"
    by (rule le_nat_bound)
  ultimately show ?thesis
    by simp
qed

lemma unat_Uint32_Cons: "unat (Uint32 (b0 # b1 # b2 # b3 # r)) = le_nat [b0, b1, b2, b3]"
proof -
  have "Uint32 (b0 # b1 # b2 # b3 # r)
      = ucast b0 + 256 * (ucast b1 + 256 * (ucast b2 + 256 * ucast b3))"
    by (simp add: Uint32_nested byte_or_shift)
  also have "\<dots> = word_of_nat (le_nat [b0, b1, b2, b3])"
    by (simp add: of_nat_unat)
  finally have "unat (Uint32 (b0 # b1 # b2 # b3 # r)) = le_nat [b0, b1, b2, b3] mod 2 ^ LENGTH(32)"
    by (simp only: unat_of_nat)
  moreover have "le_nat [b0, b1, b2, b3] < 256 ^ length [b0, b1, b2, b3]"
    by (rule le_nat_bound)
  ultimately show ?thesis
    by simp
qed

lemma unat_Uint64_Cons:
  "unat (Uint64 (b0 # b1 # b2 # b3 # b4 # b5 # b6 # b7 # r))
     = le_nat [b0, b1, b2, b3, b4, b5, b6, b7]"
proof -
  have "Uint64 (b0 # b1 # b2 # b3 # b4 # b5 # b6 # b7 # r)
      = ucast b0 + 256 * (ucast b1 + 256 * (ucast b2 + 256 * (ucast b3 + 256 * (ucast b4
          + 256 * (ucast b5 + 256 * (ucast b6 + 256 * ucast b7))))))"
    by (simp add: Uint64_nested byte_or_shift)
  also have "\<dots> = word_of_nat (le_nat [b0, b1, b2, b3, b4, b5, b6, b7])"
    by (simp add: of_nat_unat)
  finally have "unat (Uint64 (b0 # b1 # b2 # b3 # b4 # b5 # b6 # b7 # r))
      = le_nat [b0, b1, b2, b3, b4, b5, b6, b7] mod 2 ^ LENGTH(64)"
    by (simp only: unat_of_nat)
  moreover have "le_nat [b0, b1, b2, b3, b4, b5, b6, b7]
      < 256 ^ length [b0, b1, b2, b3, b4, b5, b6, b7]"
    by (rule le_nat_bound)
  ultimately show ?thesis
    by simp
qed

lemma front2:
  assumes "2 \<le> length d"
  obtains b0 b1 r where "d = b0 # b1 # r"
proof -
  from assms obtain b0 d1 where "d = b0 # d1" and "1 \<le> length d1"
    by (cases d) auto
  moreover then obtain b1 r where "d1 = b1 # r"
    by (cases d1) auto
  ultimately show thesis
    using that by blast
qed

lemma front4:
  assumes "4 \<le> length d"
  obtains b0 b1 b2 b3 r where "d = b0 # b1 # b2 # b3 # r"
proof -
  from assms have "2 \<le> length d"
    by simp
  then obtain b0 b1 d2 where d: "d = b0 # b1 # d2"
    by (rule front2)
  with assms have "2 \<le> length d2"
    by simp
  then obtain b2 b3 r where "d2 = b2 # b3 # r"
    by (rule front2)
  with d show thesis
    using that by blast
qed

lemma front8:
  assumes "8 \<le> length d"
  obtains b0 b1 b2 b3 b4 b5 b6 b7 r where "d = b0 # b1 # b2 # b3 # b4 # b5 # b6 # b7 # r"
proof -
  from assms have "4 \<le> length d"
    by simp
  then obtain b0 b1 b2 b3 d4 where d: "d = b0 # b1 # b2 # b3 # d4"
    by (rule front4)
  with assms have "4 \<le> length d4"
    by simp
  then obtain b4 b5 b6 b7 r where "d4 = b4 # b5 # b6 # b7 # r"
    by (rule front4)
  with d show thesis
    using that by blast
qed

lemma unat_Uint16: "2 \<le> length d \<Longrightarrow> unat (Uint16 d) = le_nat (take 2 d)"
  by (erule front2) (simp add: unat_Uint16_Cons del: le_nat.simps)

lemma unat_Uint32: "4 \<le> length d \<Longrightarrow> unat (Uint32 d) = le_nat (take 4 d)"
  by (erule front4) (simp add: unat_Uint32_Cons del: le_nat.simps)

lemma unat_Uint64: "8 \<le> length d \<Longrightarrow> unat (Uint64 d) = le_nat (take 8 d)"
  by (erule front8) (simp add: unat_Uint64_Cons del: le_nat.simps)

lemma field16:
  assumes "k + 2 \<le> n" and "n \<le> length a"
  shows "unat (Uint16 (drop k (take n a))) = le_nat (take 2 (drop k a))"
proof -
  from assms have "2 \<le> length (drop k (take n a))"
    by simp
  then have "unat (Uint16 (drop k (take n a))) = le_nat (take 2 (drop k (take n a)))"
    by (rule unat_Uint16)
  also from assms have "take 2 (drop k (take n a)) = take 2 (drop k a)"
    by (simp add: drop_take min_absorb1)
  finally show ?thesis .
qed

lemma field32:
  assumes "k + 4 \<le> n" and "n \<le> length a"
  shows "unat (Uint32 (drop k (take n a))) = le_nat (take 4 (drop k a))"
proof -
  from assms have "4 \<le> length (drop k (take n a))"
    by simp
  then have "unat (Uint32 (drop k (take n a))) = le_nat (take 4 (drop k (take n a)))"
    by (rule unat_Uint32)
  also from assms have "take 4 (drop k (take n a)) = take 4 (drop k a)"
    by (simp add: drop_take min_absorb1)
  finally show ?thesis .
qed

lemma field64:
  assumes "k + 8 \<le> n" and "n \<le> length a"
  shows "unat (Uint64 (drop k (take n a))) = le_nat (take 8 (drop k a))"
proof -
  from assms have "8 \<le> length (drop k (take n a))"
    by simp
  then have "unat (Uint64 (drop k (take n a))) = le_nat (take 8 (drop k (take n a)))"
    by (rule unat_Uint64)
  also from assms have "take 8 (drop k (take n a)) = take 8 (drop k a)"
    by (simp add: drop_take min_absorb1)
  finally show ?thesis .
qed

subsection \<open>The header read from a file\<close>

lemma decode_Elf64Ehdr_fields:
  "decode_Elf64Ehdr buf =
     \<lparr>e_Ident = take 16 buf, e_Type = Uint16 (drop 16 buf), e_Machine = Uint16 (drop 18 buf),
      e_Version = Uint32 (drop 20 buf), e_Entry = Uint64 (drop 24 buf),
      e_Phoff = Uint64 (drop 32 buf), e_Shoff = Uint64 (drop 40 buf),
      e_Flags = Uint32 (drop 48 buf), e_Ehsize = Uint16 (drop 52 buf),
      e_Phentsize = Uint16 (drop 54 buf), e_Phnum = Uint16 (drop 56 buf),
      e_Shentsize = Uint16 (drop 58 buf), e_Shnum = Uint16 (drop 60 buf),
      e_Shstrndx = Uint16 (drop 62 buf)\<rparr>"
  by (simp add: decode_Elf64Ehdr_def d_uint8s_def d_uint16_def d_uint32_def d_uint64_def)

lemma ReadFull_eq:
  "ReadFull file n =
     (if n \<le> length (unread file) then (Inr (take n (unread file)), file\<lparr>pos := pos file + n\<rparr>)
      else (Inl (if unread file = [] then EOF else ErrUnexpectedEOF),
            file\<lparr>pos := pos file + length (unread file)\<rparr>))"
  by (simp add: ReadFull_def unread_def Let_def)

lemma ReadELFHeader_eq:
  "ReadELFHeader file =
     (if 64 \<le> length (unread file)
      then (Inr (decode_Elf64Ehdr (take 64 (unread file))), file\<lparr>pos := pos file + 64\<rparr>)
      else (Inl (if unread file = [] then EOF else ErrUnexpectedEOF),
            file\<lparr>pos := pos file + length (unread file)\<rparr>))"
  by (simp add: ReadELFHeader_def binary_Read_def ReadFull_eq)

text \<open>
  Claim C8: \<open>ReadELFHeader\<close> reads exactly the 64 bytes of the fixed header from the current
  position of the source: the identification block is the first 16 bytes, and every other
  field is the little-endian value of its bytes, in the order in which \<^verbatim>\<open>Elf64Ehdr\<close>
  declares the fields. When fewer than 64 bytes are left it returns an error (\<^verbatim>\<open>io.EOF\<close>
  when nothing is left, \<^verbatim>\<open>io.ErrUnexpectedEOF\<close> otherwise, the spec's truncated input) and
  no header.
\<close>

theorem ReadELFHeader_decodes:
  "(64 \<le> length (unread file) \<longrightarrow>
      (\<exists>ehdr. ReadELFHeader file = (Inr ehdr, file\<lparr>pos := pos file + 64\<rparr>)
         \<and> e_Ident ehdr = take 16 (unread file)
         \<and> unat (e_Type ehdr) = le_nat (take 2 (drop 16 (unread file)))
         \<and> unat (e_Machine ehdr) = le_nat (take 2 (drop 18 (unread file)))
         \<and> unat (e_Version ehdr) = le_nat (take 4 (drop 20 (unread file)))
         \<and> unat (e_Entry ehdr) = le_nat (take 8 (drop 24 (unread file)))
         \<and> unat (e_Phoff ehdr) = le_nat (take 8 (drop 32 (unread file)))
         \<and> unat (e_Shoff ehdr) = le_nat (take 8 (drop 40 (unread file)))
         \<and> unat (e_Flags ehdr) = le_nat (take 4 (drop 48 (unread file)))
         \<and> unat (e_Ehsize ehdr) = le_nat (take 2 (drop 52 (unread file)))
         \<and> unat (e_Phentsize ehdr) = le_nat (take 2 (drop 54 (unread file)))
         \<and> unat (e_Phnum ehdr) = le_nat (take 2 (drop 56 (unread file)))
         \<and> unat (e_Shentsize ehdr) = le_nat (take 2 (drop 58 (unread file)))
         \<and> unat (e_Shnum ehdr) = le_nat (take 2 (drop 60 (unread file)))
         \<and> unat (e_Shstrndx ehdr) = le_nat (take 2 (drop 62 (unread file)))))
   \<and> (length (unread file) < 64 \<longrightarrow>
        ReadELFHeader file =
          (Inl (if unread file = [] then EOF else ErrUnexpectedEOF),
           file\<lparr>pos := pos file + length (unread file)\<rparr>))"
proof (intro conjI impI)
  assume a: "64 \<le> length (unread file)"
  let ?h = "decode_Elf64Ehdr (take 64 (unread file))"
  from a have r: "ReadELFHeader file = (Inr ?h, file\<lparr>pos := pos file + 64\<rparr>)"
    by (simp add: ReadELFHeader_eq)
  have i: "e_Ident ?h = take 16 (unread file)"
    by (simp add: decode_Elf64Ehdr_fields)
  have f1: "unat (e_Type ?h) = le_nat (take 2 (drop 16 (unread file)))"
    using a by (simp add: decode_Elf64Ehdr_fields field16 del: le_nat.simps)
  have f2: "unat (e_Machine ?h) = le_nat (take 2 (drop 18 (unread file)))"
    using a by (simp add: decode_Elf64Ehdr_fields field16 del: le_nat.simps)
  have f3: "unat (e_Version ?h) = le_nat (take 4 (drop 20 (unread file)))"
    using a by (simp add: decode_Elf64Ehdr_fields field32 del: le_nat.simps)
  have f4: "unat (e_Entry ?h) = le_nat (take 8 (drop 24 (unread file)))"
    using a by (simp add: decode_Elf64Ehdr_fields field64 del: le_nat.simps)
  have f5: "unat (e_Phoff ?h) = le_nat (take 8 (drop 32 (unread file)))"
    using a by (simp add: decode_Elf64Ehdr_fields field64 del: le_nat.simps)
  have f6: "unat (e_Shoff ?h) = le_nat (take 8 (drop 40 (unread file)))"
    using a by (simp add: decode_Elf64Ehdr_fields field64 del: le_nat.simps)
  have f7: "unat (e_Flags ?h) = le_nat (take 4 (drop 48 (unread file)))"
    using a by (simp add: decode_Elf64Ehdr_fields field32 del: le_nat.simps)
  have f8: "unat (e_Ehsize ?h) = le_nat (take 2 (drop 52 (unread file)))"
    using a by (simp add: decode_Elf64Ehdr_fields field16 del: le_nat.simps)
  have f9: "unat (e_Phentsize ?h) = le_nat (take 2 (drop 54 (unread file)))"
    using a by (simp add: decode_Elf64Ehdr_fields field16 del: le_nat.simps)
  have f10: "unat (e_Phnum ?h) = le_nat (take 2 (drop 56 (unread file)))"
    using a by (simp add: decode_Elf64Ehdr_fields field16 del: le_nat.simps)
  have f11: "unat (e_Shentsize ?h) = le_nat (take 2 (drop 58 (unread file)))"
    using a by (simp add: decode_Elf64Ehdr_fields field16 del: le_nat.simps)
  have f12: "unat (e_Shnum ?h) = le_nat (take 2 (drop 60 (unread file)))"
    using a by (simp add: decode_Elf64Ehdr_fields field16 del: le_nat.simps)
  have f13: "unat (e_Shstrndx ?h) = le_nat (take 2 (drop 62 (unread file)))"
    using a by (simp add: decode_Elf64Ehdr_fields field16 del: le_nat.simps)
  from r i f1 f2 f3 f4 f5 f6 f7 f8 f9 f10 f11 f12 f13
  show "\<exists>ehdr. ReadELFHeader file = (Inr ehdr, file\<lparr>pos := pos file + 64\<rparr>)
         \<and> e_Ident ehdr = take 16 (unread file)
         \<and> unat (e_Type ehdr) = le_nat (take 2 (drop 16 (unread file)))
         \<and> unat (e_Machine ehdr) = le_nat (take 2 (drop 18 (unread file)))
         \<and> unat (e_Version ehdr) = le_nat (take 4 (drop 20 (unread file)))
         \<and> unat (e_Entry ehdr) = le_nat (take 8 (drop 24 (unread file)))
         \<and> unat (e_Phoff ehdr) = le_nat (take 8 (drop 32 (unread file)))
         \<and> unat (e_Shoff ehdr) = le_nat (take 8 (drop 40 (unread file)))
         \<and> unat (e_Flags ehdr) = le_nat (take 4 (drop 48 (unread file)))
         \<and> unat (e_Ehsize ehdr) = le_nat (take 2 (drop 52 (unread file)))
         \<and> unat (e_Phentsize ehdr) = le_nat (take 2 (drop 54 (unread file)))
         \<and> unat (e_Phnum ehdr) = le_nat (take 2 (drop 56 (unread file)))
         \<and> unat (e_Shentsize ehdr) = le_nat (take 2 (drop 58 (unread file)))
         \<and> unat (e_Shnum ehdr) = le_nat (take 2 (drop 60 (unread file)))
         \<and> unat (e_Shstrndx ehdr) = le_nat (take 2 (drop 62 (unread file)))"
    by blast
next
  assume "length (unread file) < 64"
  then show "ReadELFHeader file =
          (Inl (if unread file = [] then EOF else ErrUnexpectedEOF),
           file\<lparr>pos := pos file + length (unread file)\<rparr>)"
    by (simp add: ReadELFHeader_eq)
qed

theorem ReadELFHeader_decodes_witness:
  "64 \<le> length (unread \<lparr>contents = example_header @ [1, 0, 0, 0], pos = 0, seek_limit = 1000\<rparr>)
   \<and> (\<exists>ehdr. ReadELFHeader \<lparr>contents = example_header @ [1, 0, 0, 0], pos = 0, seek_limit = 1000\<rparr>
          = (Inr ehdr, \<lparr>contents = example_header @ [1, 0, 0, 0], pos = 64, seek_limit = 1000\<rparr>)
        \<and> e_Ident ehdr = [0x7f, 0x45, 0x4c, 0x46, 2, 1, 1, 0, 0, 0, 0, 0, 0, 0, 0, 0]
        \<and> unat (e_Type ehdr) = 2 \<and> unat (e_Machine ehdr) = 62 \<and> unat (e_Version ehdr) = 1
        \<and> unat (e_Entry ehdr) = 4194424 \<and> unat (e_Phoff ehdr) = 64
        \<and> unat (e_Shoff ehdr) = 152 \<and> unat (e_Flags ehdr) = 0 \<and> unat (e_Ehsize ehdr) = 64
        \<and> unat (e_Phentsize ehdr) = 56 \<and> unat (e_Phnum ehdr) = 1
        \<and> unat (e_Shentsize ehdr) = 64 \<and> unat (e_Shnum ehdr) = 3
        \<and> unat (e_Shstrndx ehdr) = 2)
   \<and> length (unread \<lparr>contents = example_header, pos = 4, seek_limit = 1000\<rparr>) < 64
   \<and> ReadELFHeader \<lparr>contents = example_header, pos = 4, seek_limit = 1000\<rparr>
        = (Inl ErrUnexpectedEOF, \<lparr>contents = example_header, pos = 64, seek_limit = 1000\<rparr>)
   \<and> length (unread \<lparr>contents = example_header, pos = 64, seek_limit = 1000\<rparr>) < 64
   \<and> ReadELFHeader \<lparr>contents = example_header, pos = 64, seek_limit = 1000\<rparr>
        = (Inl EOF, \<lparr>contents = example_header, pos = 64, seek_limit = 1000\<rparr>)"
proof -
  have h1: "64 \<le> length (unread \<lparr>contents = example_header @ [1, 0, 0, 0], pos = 0, seek_limit = 1000\<rparr>)"
    by (simp add: unread_def example_header_def)
  have h2: "length (unread \<lparr>contents = example_header, pos = 4, seek_limit = 1000\<rparr>) < 64"
    by (simp add: unread_def example_header_def)
  have h3: "length (unread \<lparr>contents = example_header, pos = 64, seek_limit = 1000\<rparr>) < 64"
    by (simp add: unread_def example_header_def)
  from h1 ReadELFHeader_decodes [of "\<lparr>contents = example_header @ [1, 0, 0, 0], pos = 0, seek_limit = 1000\<rparr>"]
  have c1: "\<exists>ehdr. ReadELFHeader \<lparr>contents = example_header @ [1, 0, 0, 0], pos = 0, seek_limit = 1000\<rparr>
          = (Inr ehdr, \<lparr>contents = example_header @ [1, 0, 0, 0], pos = 64, seek_limit = 1000\<rparr>)
        \<and> e_Ident ehdr = [0x7f, 0x45, 0x4c, 0x46, 2, 1, 1, 0, 0, 0, 0, 0, 0, 0, 0, 0]
        \<and> unat (e_Type ehdr) = 2 \<and> unat (e_Machine ehdr) = 62 \<and> unat (e_Version ehdr) = 1
        \<and> unat (e_Entry ehdr) = 4194424 \<and> unat (e_Phoff ehdr) = 64
        \<and> unat (e_Shoff ehdr) = 152 \<and> unat (e_Flags ehdr) = 0 \<and> unat (e_Ehsize ehdr) = 64
        \<and> unat (e_Phentsize ehdr) = 56 \<and> unat (e_Phnum ehdr) = 1
        \<and> unat (e_Shentsize ehdr) = 64 \<and> unat (e_Shnum ehdr) = 3
        \<and> unat (e_Shstrndx ehdr) = 2"
    by (simp add: unread_def example_header_def)
  from h2 ReadELFHeader_decodes [of "\<lparr>contents = example_header, pos = 4, seek_limit = 1000\<rparr>"]
  have c2: "ReadELFHeader \<lparr>contents = example_header, pos = 4, seek_limit = 1000\<rparr>
        = (Inl ErrUnexpectedEOF, \<lparr>contents = example_header, pos = 64, seek_limit = 1000\<rparr>)"
    by (simp add: unread_def example_header_def)
  from h3 ReadELFHeader_decodes [of "\<lparr>contents = example_header, pos = 64, seek_limit = 1000\<rparr>"]
  have c3: "ReadELFHeader \<lparr>contents = example_header, pos = 64, seek_limit = 1000\<rparr>
        = (Inl EOF, \<lparr>contents = example_header, pos = 64, seek_limit = 1000\<rparr>)"
    by (simp add: unread_def example_header_def)
  from h1 c1 h2 c2 h3 c3 show ?thesis
    by (intro conjI)
qed

subsection \<open>Decoding and encoding again\<close>

lemma Put_Uint16_Cons: "PutUint16 (Uint16 (b0 # b1 # r)) = [b0, b1]"
proof -
  have "ucast (Uint16 (b0 # b1 # r)) = b0"
    unfolding Uint16_def by (rule bit_word_eqI) (auto simp: bit_simps dest: bit_imp_le_length)
  moreover have "ucast (drop_bit 8 (Uint16 (b0 # b1 # r))) = b1"
    unfolding Uint16_def by (rule bit_word_eqI) (auto simp: bit_simps dest: bit_imp_le_length)
  ultimately show ?thesis
    by (simp add: PutUint16_def)
qed

lemma Put_Uint32_Cons: "PutUint32 (Uint32 (b0 # b1 # b2 # b3 # r)) = [b0, b1, b2, b3]"
proof -
  let ?v = "Uint32 (b0 # b1 # b2 # b3 # r)"
  have "ucast ?v = b0"
    unfolding Uint32_def by (rule bit_word_eqI) (auto simp: bit_simps dest: bit_imp_le_length)
  moreover have "ucast (drop_bit 8 ?v) = b1"
    unfolding Uint32_def by (rule bit_word_eqI) (auto simp: bit_simps dest: bit_imp_le_length)
  moreover have "ucast (drop_bit 16 ?v) = b2"
    unfolding Uint32_def by (rule bit_word_eqI) (auto simp: bit_simps dest: bit_imp_le_length)
  moreover have "ucast (drop_bit 24 ?v) = b3"
    unfolding Uint32_def by (rule bit_word_eqI) (auto simp: bit_simps dest: bit_imp_le_length)
  ultimately show ?thesis
    by (simp add: PutUint32_def)
qed

lemma Put_Uint64_Cons:
  "PutUint64 (Uint64 (b0 # b1 # b2 # b3 # b4 # b5 # b6 # b7 # r))
     = [b0, b1, b2, b3, b4, b5, b6, b7]"
proof -
  let ?v = "Uint64 (b0 # b1 # b2 # b3 # b4 # b5 # b6 # b7 # r)"
  have "ucast ?v = b0"
    unfolding Uint64_def by (rule bit_word_eqI) (auto simp: bit_simps dest: bit_imp_le_length)
  moreover have "ucast (drop_bit 8 ?v) = b1"
    unfolding Uint64_def by (rule bit_word_eqI) (auto simp: bit_simps dest: bit_imp_le_length)
  moreover have "ucast (drop_bit 16 ?v) = b2"
    unfolding Uint64_def by (rule bit_word_eqI) (auto simp: bit_simps dest: bit_imp_le_length)
  moreover have "ucast (drop_bit 24 ?v) = b3"
    unfolding Uint64_def by (rule bit_word_eqI) (auto simp: bit_simps dest: bit_imp_le_length)
  moreover have "ucast (drop_bit 32 ?v) = b4"
    unfolding Uint64_def by (rule bit_word_eqI) (auto simp: bit_simps dest: bit_imp_le_length)
  moreover have "ucast (drop_bit 40 ?v) = b5"
    unfolding Uint64_def by (rule bit_word_eqI) (auto simp: bit_simps dest: bit_imp_le_length)
  moreover have "ucast (drop_bit 48 ?v) = b6"
    unfolding Uint64_def by (rule bit_word_eqI) (auto simp: bit_simps dest: bit_imp_le_length)
  moreover have "ucast (drop_bit 56 ?v) = b7"
    unfolding Uint64_def by (rule bit_word_eqI) (auto simp: bit_simps dest: bit_imp_le_length)
  ultimately show ?thesis
    by (simp add: PutUint64_def)
qed

lemma Put_Uint16: "2 \<le> length d \<Longrightarrow> PutUint16 (Uint16 d) = take 2 d"
  by (erule front2) (simp add: Put_Uint16_Cons)

lemma Put_Uint32: "4 \<le> length d \<Longrightarrow> PutUint32 (Uint32 d) = take 4 d"
  by (erule front4) (simp add: Put_Uint32_Cons)

lemma Put_Uint64: "8 \<le> length d \<Longrightarrow> PutUint64 (Uint64 d) = take 8 d"
  by (erule front8) (simp add: Put_Uint64_Cons)

lemma take_drop_step: "take n (drop k xs) @ drop (k + n) xs = drop k xs"
  by (metis add.commute append_take_drop_id drop_drop)

lemma encode_decode_chunks:
  assumes "length buf = 64"
  shows "encode_Elf64Ehdr (decode_Elf64Ehdr buf) =
     take 16 buf @ take 2 (drop 16 buf) @ take 2 (drop 18 buf) @ take 4 (drop 20 buf)
       @ take 8 (drop 24 buf) @ take 8 (drop 32 buf) @ take 8 (drop 40 buf)
       @ take 4 (drop 48 buf) @ take 2 (drop 52 buf) @ take 2 (drop 54 buf)
       @ take 2 (drop 56 buf) @ take 2 (drop 58 buf) @ take 2 (drop 60 buf)
       @ take 2 (drop 62 buf)"
  using assms
  by (simp add: encode_Elf64Ehdr_def decode_Elf64Ehdr_fields Put_Uint16 Put_Uint32 Put_Uint64)

lemma chunks_join:
  assumes "length buf = 64"
  shows "take 16 buf @ take 2 (drop 16 buf) @ take 2 (drop 18 buf) @ take 4 (drop 20 buf)
       @ take 8 (drop 24 buf) @ take 8 (drop 32 buf) @ take 8 (drop 40 buf)
       @ take 4 (drop 48 buf) @ take 2 (drop 52 buf) @ take 2 (drop 54 buf)
       @ take 2 (drop 56 buf) @ take 2 (drop 58 buf) @ take 2 (drop 60 buf)
       @ take 2 (drop 62 buf) = buf"
proof -
  from assms have s13: "take 2 (drop 62 buf) = drop 62 buf"
    by simp
  have s12: "take 2 (drop 60 buf) @ drop 62 buf = drop 60 buf"
    using take_drop_step [of 2 60 buf] by simp
  have s11: "take 2 (drop 58 buf) @ drop 60 buf = drop 58 buf"
    using take_drop_step [of 2 58 buf] by simp
  have s10: "take 2 (drop 56 buf) @ drop 58 buf = drop 56 buf"
    using take_drop_step [of 2 56 buf] by simp
  have s9: "take 2 (drop 54 buf) @ drop 56 buf = drop 54 buf"
    using take_drop_step [of 2 54 buf] by simp
  have s8: "take 2 (drop 52 buf) @ drop 54 buf = drop 52 buf"
    using take_drop_step [of 2 52 buf] by simp
  have s7: "take 4 (drop 48 buf) @ drop 52 buf = drop 48 buf"
    using take_drop_step [of 4 48 buf] by simp
  have s6: "take 8 (drop 40 buf) @ drop 48 buf = drop 40 buf"
    using take_drop_step [of 8 40 buf] by simp
  have s5: "take 8 (drop 32 buf) @ drop 40 buf = drop 32 buf"
    using take_drop_step [of 8 32 buf] by simp
  have s4: "take 8 (drop 24 buf) @ drop 32 buf = drop 24 buf"
    using take_drop_step [of 8 24 buf] by simp
  have s3: "take 4 (drop 20 buf) @ drop 24 buf = drop 20 buf"
    using take_drop_step [of 4 20 buf] by simp
  have s2: "take 2 (drop 18 buf) @ drop 20 buf = drop 18 buf"
    using take_drop_step [of 2 18 buf] by simp
  have s1: "take 2 (drop 16 buf) @ drop 18 buf = drop 16 buf"
    using take_drop_step [of 2 16 buf] by simp
  show ?thesis
    by (simp only: s13 s12 s11 s10 s9 s8 s7 s6 s5 s4 s3 s2 s1 append_take_drop_id)
qed

text \<open>
  Claim C9: a buffer of exactly the 64 bytes of the file header, decoded the way
  \<open>ReadELFHeader\<close> decodes it and encoded again with the same little-endian layout, comes
  back byte for byte.
\<close>

theorem Elf64Ehdr_roundtrip:
  assumes "length buf = 64"
  shows "ReadELFHeader \<lparr>contents = buf, pos = 0, seek_limit = l\<rparr>
      = (Inr (decode_Elf64Ehdr buf), \<lparr>contents = buf, pos = 64, seek_limit = l\<rparr>)
    \<and> encode_Elf64Ehdr (decode_Elf64Ehdr buf) = buf"
proof -
  from assms have "ReadELFHeader \<lparr>contents = buf, pos = 0, seek_limit = l\<rparr>
      = (Inr (decode_Elf64Ehdr buf), \<lparr>contents = buf, pos = 64, seek_limit = l\<rparr>)"
    by (simp add: ReadELFHeader_eq unread_def)
  moreover from assms have "encode_Elf64Ehdr (decode_Elf64Ehdr buf) = buf"
    by (simp only: encode_decode_chunks chunks_join)
  ultimately show ?thesis
    by (rule conjI)
qed

theorem Elf64Ehdr_roundtrip_witness:
  "length example_header = 64
   \<and> ReadELFHeader \<lparr>contents = example_header, pos = 0, seek_limit = 64\<rparr>
        = (Inr (decode_Elf64Ehdr example_header),
           \<lparr>contents = example_header, pos = 64, seek_limit = 64\<rparr>)
   \<and> encode_Elf64Ehdr (decode_Elf64Ehdr example_header) = example_header
   \<and> unat (e_Entry (decode_Elf64Ehdr example_header)) = 4194424"
proof -
  have h: "length example_header = 64"
    by (simp add: example_header_def)
  have e: "unat (e_Entry (decode_Elf64Ehdr example_header)) = 4194424"
    by (simp add: decode_Elf64Ehdr_fields example_header_def unat_Uint64_Cons)
  from Elf64Ehdr_roundtrip [OF h, of 64] h e show ?thesis
    by simp
qed

section \<open>The program header table\<close>

lemma example_ehdr_decoded: "decode_Elf64Ehdr example_header = example_ehdr"
  by (simp add: decode_Elf64Ehdr_fields example_header_def example_ehdr_def Uint16_def Uint32_def Uint64_def)

lemma binary_Read_Phdr:
  "binary_Read file 56 decode_Elf64Phdr =
     (if pos file + 56 \<le> length (contents file)
      then (Inr (decode_Elf64Phdr (take 56 (drop (pos file) (contents file)))),
            file\<lparr>pos := pos file + 56\<rparr>)
      else (Inl (if unread file = [] then EOF else ErrUnexpectedEOF),
            file\<lparr>pos := pos file + (length (contents file) - pos file)\<rparr>))"
  by (auto simp: binary_Read_def ReadFull_eq unread_def)

lemma phdr_at_beyond: "length bytes < off + 56 \<Longrightarrow> phdr_at bytes off = zero_Elf64Phdr"
  by (simp add: phdr_at_def)

lemma programHeaders_loop_fst:
  "fst (programHeaders_loop f n phdrs)
     = phdrs @ map (\<lambda>k. phdr_at (contents f) (pos f + 56 * k)) [0..<n]"
proof (induction n arbitrary: f phdrs)
  case 0
  show ?case
    by simp
next
  case (Suc n)
  let ?bytes = "contents f"
  have upt: "[0..<Suc n] = 0 # map Suc [0..<n]"
    by (simp only: upt_conv_Cons [OF zero_less_Suc] map_Suc_upt)
  show ?case
  proof (cases "pos f + 56 \<le> length ?bytes")
    case True
    let ?f' = "f\<lparr>pos := pos f + 56\<rparr>"
    from True have "fst (programHeaders_loop f (Suc n) phdrs)
        = fst (programHeaders_loop ?f' n (phdrs @ [phdr_at ?bytes (pos f)]))"
      by (simp add: binary_Read_Phdr phdr_at_def)
    also have "\<dots> = (phdrs @ [phdr_at ?bytes (pos f)])
        @ map (\<lambda>k. phdr_at (contents ?f') (pos ?f' + 56 * k)) [0..<n]"
      by (rule Suc.IH)
    also have "\<dots> = phdrs @ map (\<lambda>k. phdr_at ?bytes (pos f + 56 * k)) [0..<Suc n]"
      by (simp only: upt) (simp add: o_def add.assoc)
    finally show ?thesis .
  next
    case False
    let ?f' = "f\<lparr>pos := pos f + (length ?bytes - pos f)\<rparr>"
    from False have "fst (programHeaders_loop f (Suc n) phdrs)
        = fst (programHeaders_loop ?f' n (phdrs @ [zero_Elf64Phdr]))"
      by (simp add: binary_Read_Phdr)
    also have "\<dots> = (phdrs @ [zero_Elf64Phdr])
        @ map (\<lambda>k. phdr_at (contents ?f') (pos ?f' + 56 * k)) [0..<n]"
      by (rule Suc.IH)
    also from False have "\<dots> = (phdrs @ [zero_Elf64Phdr]) @ map (\<lambda>k. zero_Elf64Phdr) [0..<n]"
      by (simp add: phdr_at_beyond)
    also from False have "\<dots> = phdrs @ map (\<lambda>k. phdr_at ?bytes (pos f + 56 * k)) [0..<Suc n]"
      by (simp only: upt) (simp add: o_def phdr_at_beyond)
    finally show ?thesis .
  qed
qed

text \<open>
  What the two functions render: exactly \<open>program_header_count\<close> records, whatever the
  source holds. Record \<open>i\<close> is decoded from the 56 bytes at offset \<open>p + 56 * i\<close>, where \<open>p\<close>
  is the position after the seek, when the source holds all of them, and is zero-filled
  otherwise.
\<close>

lemma programHeaders_records:
  "PrintProgramHeaders file ehdr = JSONOutputProgramHeaders file ehdr
   \<and> length (fst (JSONOutputProgramHeaders file ehdr)) = unat (e_Phnum ehdr)
   \<and> (\<forall>i < unat (e_Phnum ehdr).
        fst (JSONOutputProgramHeaders file ehdr) ! i =
          (if pos (Seek file (e_Phoff ehdr)) + 56 * i + 56 \<le> length (contents file)
           then decode_Elf64Phdr
                  (take 56 (drop (pos (Seek file (e_Phoff ehdr)) + 56 * i) (contents file)))
           else zero_Elf64Phdr))"
proof -
  let ?f = "Seek file (e_Phoff ehdr)"
  have c: "contents ?f = contents file"
    by (simp add: Seek_def)
  have r: "fst (JSONOutputProgramHeaders file ehdr)
      = map (\<lambda>k. phdr_at (contents file) (pos ?f + 56 * k)) [0..<unat (e_Phnum ehdr)]"
    using programHeaders_loop_fst [of ?f "unat (e_Phnum ehdr)" "[]"]
    by (simp add: JSONOutputProgramHeaders_def c)
  have "PrintProgramHeaders file ehdr = JSONOutputProgramHeaders file ehdr"
    by (simp add: PrintProgramHeaders_def JSONOutputProgramHeaders_def)
  moreover from r have "length (fst (JSONOutputProgramHeaders file ehdr)) = unat (e_Phnum ehdr)"
    by simp
  moreover from r have "\<forall>i < unat (e_Phnum ehdr).
        fst (JSONOutputProgramHeaders file ehdr) ! i =
          (if pos ?f + 56 * i + 56 \<le> length (contents file)
           then decode_Elf64Phdr (take 56 (drop (pos ?f + 56 * i) (contents file)))
           else zero_Elf64Phdr)"
    by (simp add: phdr_at_def)
  ultimately show ?thesis
    by blast
qed

lemma programHeaders_records_example:
  "(1 :: nat) < unat (e_Phnum (example_ehdr\<lparr>e_Phnum := 2\<rparr>))
   \<and> pos (Seek \<lparr>contents = example_header @ example_phdr @ take 10 example_phdr, pos = 0,
                  seek_limit = 1000\<rparr> (e_Phoff (example_ehdr\<lparr>e_Phnum := 2\<rparr>))) = 64
   \<and> length (fst (JSONOutputProgramHeaders
        \<lparr>contents = example_header @ example_phdr @ take 10 example_phdr, pos = 0,
          seek_limit = 1000\<rparr> (example_ehdr\<lparr>e_Phnum := 2\<rparr>))) = 2
   \<and> fst (JSONOutputProgramHeaders
        \<lparr>contents = example_header @ example_phdr @ take 10 example_phdr, pos = 0,
          seek_limit = 1000\<rparr> (example_ehdr\<lparr>e_Phnum := 2\<rparr>)) ! 0
      = \<lparr>p_Type = 1, p_Flags = 5, p_Offset = 0, p_Vaddr = 0x400000, p_Paddr = 0x400000,
         p_Filesz = 344, p_Memsz = 344, p_Align = 0x1000\<rparr>
   \<and> fst (JSONOutputProgramHeaders
        \<lparr>contents = example_header @ example_phdr @ take 10 example_phdr, pos = 0,
          seek_limit = 1000\<rparr> (example_ehdr\<lparr>e_Phnum := 2\<rparr>)) ! 1
      = zero_Elf64Phdr"
proof -
  let ?f = "\<lparr>contents = example_header @ example_phdr @ take 10 example_phdr, pos = 0,
    seek_limit = 1000\<rparr>"
  let ?h = "example_ehdr\<lparr>e_Phnum := 2\<rparr>"
  have n: "unat (e_Phnum ?h) = 2"
    by (simp add: example_ehdr_def)
  have p: "pos (Seek ?f (e_Phoff ?h)) = 64"
    by (simp add: Seek_def example_ehdr_def)
  have l: "length (contents ?f) = 130"
    by (simp add: example_header_def example_phdr_def)
  have d: "decode_Elf64Phdr (take 56 (drop 64 (contents ?f)))
      = \<lparr>p_Type = 1, p_Flags = 5, p_Offset = 0, p_Vaddr = 0x400000, p_Paddr = 0x400000,
         p_Filesz = 344, p_Memsz = 344, p_Align = 0x1000\<rparr>"
    by (simp add: example_header_def example_phdr_def decode_Elf64Phdr_def d_uint32_def
        d_uint64_def Uint32_def Uint64_def)
  from programHeaders_records [of ?f ?h] n p l d show ?thesis
    by simp
qed

text \<open>
  Claim C3 says that decoding the program headers of a source shorter than
  \<open>program_header_offset + program_header_count * 56\<close> fails and returns no record, none
  zero-filled. \<open>ReadELFHeader\<close> returns the error of \<^verbatim>\<open>binary.Read\<close> and \<^verbatim>\<open>main\<close> reports it;
  the loops of \<^verbatim>\<open>PrintProgramHeaders\<close> and \<^verbatim>\<open>JSONOutputProgramHeaders\<close> call \<^verbatim>\<open>binary.Read\<close>
  the same way and drop its error. For the example header followed by only ten bytes of its
  program header, the source is shorter than the table and the table that is rendered
  holds one zero-filled record.
\<close>

theorem JSONOutputProgramHeaders_truncated:
  "length (contents \<lparr>contents = example_header @ take 10 example_phdr, pos = 64, seek_limit = 1000\<rparr>)
     < unat (e_Phoff example_ehdr) + unat (e_Phnum example_ehdr) * 56
   \<and> JSONOutputProgramHeaders
        \<lparr>contents = example_header @ take 10 example_phdr, pos = 64, seek_limit = 1000\<rparr>
        example_ehdr
      = ([zero_Elf64Phdr],
         \<lparr>contents = example_header @ take 10 example_phdr, pos = 74, seek_limit = 1000\<rparr>)
   \<and> PrintProgramHeaders
        \<lparr>contents = example_header @ take 10 example_phdr, pos = 64, seek_limit = 1000\<rparr>
        example_ehdr
      = ([zero_Elf64Phdr],
         \<lparr>contents = example_header @ take 10 example_phdr, pos = 74, seek_limit = 1000\<rparr>)"
  by (simp add: JSONOutputProgramHeaders_def PrintProgramHeaders_def Seek_def binary_Read_Phdr
      example_ehdr_def example_header_def example_phdr_def)

section \<open>Loading the string table: \<open>dumpStringTable\<close>\<close>

lemma dumpStringTable_eq:
  "dumpStringTable file offset sz =
     (if maxAlloc < unat sz then (Inl MakesliceLenOutOfRange, Seek file offset)
      else if unat sz \<le> length (unread (Seek file offset))
      then (Inr (take (unat sz) (unread (Seek file offset))),
            (Seek file offset)\<lparr>pos := pos (Seek file offset) + unat sz\<rparr>)
      else (Inr (replicate (unat sz) 0),
            (Seek file offset)\<lparr>pos := pos (Seek file offset)
               + length (unread (Seek file offset))\<rparr>))"
  by (simp add: dumpStringTable_def binary_Read_def ReadFull_eq Let_def)

lemma length_dumpStringTable:
  "fst (dumpStringTable file offset sz) = Inr bytes \<Longrightarrow> length bytes = unat sz"
  by (auto simp: dumpStringTable_eq split: if_splits)

text \<open>
  What \<open>dumpStringTable\<close> returns for an offset that the seek accepts and a size that
  \<^verbatim>\<open>make\<close> accepts: the \<open>size\<close> bytes of the source at the offset when the source holds them
  all, and \<open>size\<close> zero bytes when fewer are available there.
\<close>

lemma dumpStringTable_buffer:
  assumes "0 \<le> sint offset" and "unat offset \<le> seek_limit file" and "unat sz \<le> maxAlloc"
  shows "fst (dumpStringTable file offset sz) =
      Inr (if unat offset + unat sz \<le> length (contents file)
           then take (unat sz) (drop (unat offset) (contents file))
           else replicate (unat sz) 0)
    \<and> length (if unat offset + unat sz \<le> length (contents file)
           then take (unat sz) (drop (unat offset) (contents file))
           else replicate (unat sz) 0) = unat sz"
proof -
  from assms(1,2) have s: "Seek file offset = file\<lparr>pos := unat offset\<rparr>"
    by (simp add: Seek_def)
  have u: "unread (file\<lparr>pos := unat offset\<rparr>) = drop (unat offset) (contents file)"
    by (simp add: unread_def)
  show ?thesis
  proof (cases "unat offset + unat sz \<le> length (contents file)")
    case True
    with assms(3) show ?thesis
      by (simp add: dumpStringTable_eq s u)
  next
    case False
    show ?thesis
    proof (cases "unat sz = 0")
      case True
      with assms(3) show ?thesis
        by (simp add: dumpStringTable_eq s u)
    next
      case nz: False
      with False have "\<not> unat sz \<le> length (drop (unat offset) (contents file))"
        by simp
      with False assms(3) show ?thesis
        by (simp add: dumpStringTable_eq s u)
    qed
  qed
qed

lemma dumpStringTable_buffer_example:
  "0 \<le> sint (1 :: uint64) \<and> unat (1 :: uint64) \<le> seek_limit \<lparr>contents = [1, 2, 3], pos = 0, seek_limit = 1000\<rparr>
   \<and> unat (2 :: uint64) \<le> maxAlloc \<and> unat (5 :: uint64) \<le> maxAlloc
   \<and> fst (dumpStringTable \<lparr>contents = [1, 2, 3], pos = 0, seek_limit = 1000\<rparr> 1 2) = Inr [2, 3]
   \<and> fst (dumpStringTable \<lparr>contents = [1, 2, 3], pos = 0, seek_limit = 1000\<rparr> 1 5)
        = Inr [0, 0, 0, 0, 0]"
proof -
  let ?f = "\<lparr>contents = [1, 2, 3 :: byte], pos = 0, seek_limit = 1000\<rparr>"
  have h1: "0 \<le> sint (1 :: uint64)"
    by simp
  have h2: "unat (1 :: uint64) \<le> seek_limit ?f"
    by simp
  have h3: "unat (2 :: uint64) \<le> maxAlloc"
    by (simp add: maxAlloc_def)
  have h4: "unat (5 :: uint64) \<le> maxAlloc"
    by (simp add: maxAlloc_def)
  have r: "replicate 5 (0 :: byte) = [0, 0, 0, 0, 0]"
    by code_simp
  from dumpStringTable_buffer [OF h1 h2 h3] dumpStringTable_buffer [OF h1 h2 h4] h1 h2 h3 h4 r
  show ?thesis
    by simp
qed

text \<open>
  Claim C7 says that \<open>dumpStringTable\<close> returns exactly \<open>size\<close> bytes read at the offset and
  fails when fewer are available. Unlike \<open>ReadELFHeader\<close>, it drops the error of
  \<^verbatim>\<open>binary.Read\<close>: asked for five bytes at offset 1 of a file of three bytes, it returns five
  zero bytes.
\<close>

theorem dumpStringTable_truncated:
  "length (drop (unat (1 :: uint64)) [1, 2, 3 :: byte]) < unat (5 :: uint64)
   \<and> dumpStringTable \<lparr>contents = [1, 2, 3], pos = 0, seek_limit = 1000\<rparr> 1 5
      = (Inr [0, 0, 0, 0, 0], \<lparr>contents = [1, 2, 3], pos = 3, seek_limit = 1000\<rparr>)"
proof -
  have "replicate 5 (0 :: byte) = [0, 0, 0, 0, 0]"
    by code_simp
  then show ?thesis
    by (simp add: dumpStringTable_eq Seek_def unread_def maxAlloc_def)
qed

section \<open>Binding section names: \<open>MakeSectionHeaderWithName\<close>\<close>

subsection \<open>The two loops\<close>

lemma binary_Read_Shdr:
  "binary_Read f 64 decode_Elf64Shdr =
     (if pos f + 64 \<le> length (contents f)
      then (Inr (decode_Elf64Shdr (take 64 (drop (pos f) (contents f)))),
            f\<lparr>pos := pos f + 64\<rparr>)
      else (Inl (if unread f = [] then EOF else ErrUnexpectedEOF),
            f\<lparr>pos := pos f + (length (contents f) - pos f)\<rparr>))"
  by (auto simp: binary_Read_def ReadFull_eq unread_def)

lemma shdr_at_beyond: "length bytes < off + 64 \<Longrightarrow> shdr_at bytes off = zero_Elf64Shdr"
  by (simp add: shdr_at_def)

lemma sectionHeaders_loop_length:
  "length (fst (sectionHeaders_loop f i n shdrs)) = length shdrs"
proof (induction f i n shdrs rule: sectionHeaders_loop.induct)
  case (1 f i n shdrs)
  show ?case
  proof (cases "i < n")
    case True
    show ?thesis
    proof (cases "pos f + 64 \<le> length (contents f)")
      case ok: True
      with True "1.IH"(2) show ?thesis
        by (subst sectionHeaders_loop.simps) (simp add: binary_Read_Shdr)
    next
      case bad: False
      with True "1.IH"(1) show ?thesis
        by (subst sectionHeaders_loop.simps) (simp add: binary_Read_Shdr)
    qed
  next
    case False
    then show ?thesis
      by (subst sectionHeaders_loop.simps) simp
  qed
qed

lemma sectionHeaders_loop_nth:
  "j < length shdrs \<Longrightarrow>
   fst (sectionHeaders_loop f i n shdrs) ! j =
     (if i \<le> j \<and> j < n \<and> pos f + 64 * (j - i) + 64 \<le> length (contents f)
      then decode_Elf64Shdr (take 64 (drop (pos f + 64 * (j - i)) (contents f)))
      else shdrs ! j)"
proof (induction f i n shdrs rule: sectionHeaders_loop.induct)
  case (1 f i n shdrs)
  show ?case
  proof (cases "i < n")
    case True
    show ?thesis
    proof (cases "pos f + 64 \<le> length (contents f)")
      case ok: True
      let ?d = "decode_Elf64Shdr (take 64 (drop (pos f) (contents f)))"
      let ?f' = "f\<lparr>pos := pos f + 64\<rparr>"
      from True ok have step: "sectionHeaders_loop f i n shdrs
          = sectionHeaders_loop ?f' (i + 1) n (shdrs[i := ?d])"
        by (subst sectionHeaders_loop.simps) (simp add: binary_Read_Shdr)
      from True ok "1.IH"(2) [of "Inr ?d" ?f' ?d] "1.prems"
      have ih: "fst (sectionHeaders_loop ?f' (i + 1) n (shdrs[i := ?d])) ! j =
          (if i + 1 \<le> j \<and> j < n \<and> pos ?f' + 64 * (j - (i + 1)) + 64 \<le> length (contents ?f')
           then decode_Elf64Shdr (take 64 (drop (pos ?f' + 64 * (j - (i + 1))) (contents ?f')))
           else shdrs[i := ?d] ! j)"
        by (simp add: binary_Read_Shdr)
      show ?thesis
      proof (cases "j = i")
        case True
        with ih step ok \<open>i < n\<close> "1.prems" show ?thesis
          by simp
      next
        case False
        show ?thesis
        proof (cases "i < j")
          case True
          then obtain k where j: "j = Suc (i + k)"
            by (metis less_iff_Suc_add)
          have a: "pos f + 64 + 64 * k + 64 = pos f + 64 * Suc k + 64"
            by simp
          have b: "pos f + 64 + 64 * k = pos f + 64 * Suc k"
            by simp
          from ih step show ?thesis
            unfolding j by (simp add: a b del: mult_Suc_right)
        next
          case False
          with \<open>j \<noteq> i\<close> ih step show ?thesis
            by simp
        qed
      qed
    next
      case bad: False
      let ?f' = "f\<lparr>pos := pos f + (length (contents f) - pos f)\<rparr>"
      from True bad have step: "sectionHeaders_loop f i n shdrs
          = sectionHeaders_loop ?f' (i + 1) n shdrs"
        by (subst sectionHeaders_loop.simps) (simp add: binary_Read_Shdr)
      from True bad "1.IH"(1) [of "Inl (if unread f = [] then EOF else ErrUnexpectedEOF)" ?f'] "1.prems"
      have ih: "fst (sectionHeaders_loop ?f' (i + 1) n shdrs) ! j =
          (if i + 1 \<le> j \<and> j < n \<and> pos ?f' + 64 * (j - (i + 1)) + 64 \<le> length (contents ?f')
           then decode_Elf64Shdr (take 64 (drop (pos ?f' + 64 * (j - (i + 1))) (contents ?f')))
           else shdrs ! j)"
        by (simp add: binary_Read_Shdr)
      from bad have "\<not> pos ?f' + 64 * (j - (i + 1)) + 64 \<le> length (contents ?f')"
        by simp
      with ih have "fst (sectionHeaders_loop ?f' (i + 1) n shdrs) ! j = shdrs ! j"
        by simp
      moreover from bad have "\<not> pos f + 64 * (j - i) + 64 \<le> length (contents f)"
        by simp
      ultimately show ?thesis
        using step by simp
    qed
  next
    case False
    then have r: "sectionHeaders_loop f i n shdrs = (shdrs, f)"
      by (subst sectionHeaders_loop.simps) simp
    from False have "\<not> (i \<le> j \<and> j < n)"
      by linarith
    then show ?thesis
      by (simp only: r fst_conv) auto
  qed
qed

lemma MakeSectionHeaderWithName_shdrs_length:
  "length (fst (MakeSectionHeaderWithName_shdrs file ehdr)) = unat (e_Shnum ehdr)"
  by (simp add: MakeSectionHeaderWithName_shdrs_def sectionHeaders_loop_length)

lemma MakeSectionHeaderWithName_shdrs_nth:
  assumes "i < unat (e_Shnum ehdr)"
  shows "fst (MakeSectionHeaderWithName_shdrs file ehdr) ! i
    = shdr_at (contents file) (pos (Seek file (e_Shoff ehdr)) + 64 * i)"
proof -
  have "contents (Seek file (e_Shoff ehdr)) = contents file"
    by (simp add: Seek_def)
  with assms show ?thesis
    by (simp add: MakeSectionHeaderWithName_shdrs_def sectionHeaders_loop_nth shdr_at_def)
qed

lemma names_loop_Inr:
  "names_loop stringTable shdrs i n shdrwns = Inr out \<Longrightarrow>
   length out = length shdrwns
   \<and> (\<forall>j < length shdrwns.
        if i \<le> j \<and> j < n then resolved stringTable (shdrs ! j) (out ! j)
        else out ! j = shdrwns ! j)"
proof (induction stringTable shdrs i n shdrwns rule: names_loop.induct)
  case (1 stringTable shdrs i n shdrwns)
  show ?case
  proof (cases "i < n")
    case True
    show ?thesis
    proof (cases "getString stringTable (sh_Name (shdrs ! i))")
      case (Inl p)
      with True have "names_loop stringTable shdrs i n shdrwns = Inl p"
        by (subst names_loop.simps) simp
      with "1.prems" show ?thesis
        by simp
    next
      case (Inr sectionName)
      let ?w = "\<lparr>shn_Name = sectionName, shn_Type = sh_Type (shdrs ! i),
                  shn_Flags = sh_Flags (shdrs ! i), shn_Addr = sh_Addr (shdrs ! i),
                  shn_Offset = sh_Offset (shdrs ! i), shn_Size = sh_Size (shdrs ! i),
                  shn_Link = sh_Link (shdrs ! i), shn_Info = sh_Info (shdrs ! i),
                  shn_Addralign = sh_Addralign (shdrs ! i),
                  shn_Entsize = sh_Entsize (shdrs ! i)\<rparr>"
      from True Inr have step: "names_loop stringTable shdrs i n shdrwns
          = names_loop stringTable shdrs (i + 1) n (shdrwns[i := ?w])"
        by (subst names_loop.simps) simp
      with "1.prems" have "names_loop stringTable shdrs (i + 1) n (shdrwns[i := ?w]) = Inr out"
        by simp
      with "1.IH" [OF True Inr] have ih: "length out = length (shdrwns[i := ?w])
          \<and> (\<forall>j < length (shdrwns[i := ?w]).
              if i + 1 \<le> j \<and> j < n then resolved stringTable (shdrs ! j) (out ! j)
              else out ! j = shdrwns[i := ?w] ! j)"
        by simp
      have w: "resolved stringTable (shdrs ! i) ?w"
        using Inr by (simp add: resolved_def)
      from ih have len: "length out = length shdrwns"
        by simp
      have pj: "if i \<le> j \<and> j < n then resolved stringTable (shdrs ! j) (out ! j)
          else out ! j = shdrwns ! j" if j: "j < length shdrwns" for j
      proof (cases "j = i")
        case True
        with ih j have "out ! j = ?w"
          by simp
        with True \<open>i < n\<close> w show ?thesis
          by simp
      next
        case False
        with ih j show ?thesis
          by (auto split: if_splits)
      qed
      show ?thesis
        by (intro conjI allI impI) (rule len, erule pj)
    qed
  next
    case False
    then have "names_loop stringTable shdrs i n shdrwns = Inr shdrwns"
      by (subst names_loop.simps) simp
    with "1.prems" False show ?thesis
      by auto
  qed
qed

lemma MakeSectionHeaderWithName_eq:
  "MakeSectionHeaderWithName file ehdr =
     (if unat (e_Shnum ehdr) \<le> unat (e_Shstrndx ehdr)
      then (Inl (IndexOutOfRange (unat (e_Shstrndx ehdr)) (unat (e_Shnum ehdr))),
            snd (MakeSectionHeaderWithName_shdrs file ehdr))
      else
        (case dumpStringTable (snd (MakeSectionHeaderWithName_shdrs file ehdr))
                (sh_Offset (fst (MakeSectionHeaderWithName_shdrs file ehdr) ! unat (e_Shstrndx ehdr)))
                (sh_Size (fst (MakeSectionHeaderWithName_shdrs file ehdr) ! unat (e_Shstrndx ehdr))) of
           (Inl p, file3) \<Rightarrow> (Inl p, file3)
         | (Inr stringTable, file3) \<Rightarrow>
             (names_loop stringTable (fst (MakeSectionHeaderWithName_shdrs file ehdr)) 0
                (unat (e_Shnum ehdr)) (replicate (unat (e_Shnum ehdr)) zero_Elf64ShdrWithName),
              file3)))"
  using MakeSectionHeaderWithName_shdrs_length [of "file" ehdr]
  by (simp add: MakeSectionHeaderWithName_def Let_def split_beta)

subsection \<open>The example file\<close>

lemma example_contents_length: "length (contents example_file) = 344"
  by (simp add: example_file_def example_header_def example_phdr_def example_text_def
      example_strtab_def example_shdrs_def)

lemma example_contents_shdrs: "drop 152 (contents example_file) = example_shdrs"
  by (simp add: example_file_def example_header_def example_phdr_def example_text_def
      example_strtab_def)

lemma example_contents_strtab: "take 17 (drop 128 (contents example_file)) = example_strtab"
  by (simp add: example_file_def example_header_def example_phdr_def example_text_def
      example_strtab_def)

lemma example_getString:
  "getString example_strtab 0 = Inr ''''"
  "getString example_strtab 1 = Inr ''.text''"
  "getString example_strtab 7 = Inr ''.shstrtab''"
  by code_simp+

lemma example_shdr_at:
  "shdr_at (contents example_file) (152 + 64 * i) =
     (if i < 3 then decode_Elf64Shdr (take 64 (drop (64 * i) example_shdrs)) else zero_Elf64Shdr)"
proof -
  have "drop (64 * i + 152) (contents example_file) = drop (64 * i) (drop 152 (contents example_file))"
    by (simp only: drop_drop)
  then have "drop (152 + 64 * i) (contents example_file) = drop (64 * i) example_shdrs"
    by (simp only: example_contents_shdrs add.commute)
  then show ?thesis
    by (auto simp: shdr_at_def example_contents_length)
qed

lemma example_shdr_0: "decode_Elf64Shdr (take 64 (drop (64 * 0) example_shdrs)) = zero_Elf64Shdr"
  by (simp add: example_shdrs_def decode_Elf64Shdr_def d_uint32_def d_uint64_def Uint32_def
      Uint64_def zero_Elf64Shdr_def)

lemma example_shdr_1:
  "decode_Elf64Shdr (take 64 (drop (64 * 1) example_shdrs)) =
    \<lparr>sh_Name = 1, sh_Type = 1, sh_Flags = 6, sh_Addr = 0x400078, sh_Offset = 120, sh_Size = 8,
      sh_Link = 0, sh_Info = 0, sh_Addralign = 1, sh_Entsize = 0\<rparr>"
  by (simp add: example_shdrs_def decode_Elf64Shdr_def d_uint32_def d_uint64_def Uint32_def
      Uint64_def)

lemma example_shdr_2:
  "decode_Elf64Shdr (take 64 (drop (64 * 2) example_shdrs)) =
    \<lparr>sh_Name = 7, sh_Type = 3, sh_Flags = 0, sh_Addr = 0, sh_Offset = 128, sh_Size = 17,
      sh_Link = 0, sh_Info = 0, sh_Addralign = 1, sh_Entsize = 0\<rparr>"
  by (simp add: example_shdrs_def decode_Elf64Shdr_def d_uint32_def d_uint64_def Uint32_def
      Uint64_def)

lemma example_Seek: "Seek example_file (e_Shoff example_ehdr) = example_file\<lparr>pos := 152\<rparr>"
  by (simp add: Seek_def example_file_def example_ehdr_def)

lemma example_reads:
  "take 64 (drop 152 (contents example_file)) = take 64 example_shdrs"
  "take 64 (drop 216 (contents example_file)) = take 64 (drop 64 example_shdrs)"
  "take 64 (drop 280 (contents example_file)) = take 64 (drop 128 example_shdrs)"
proof -
  show "take 64 (drop 152 (contents example_file)) = take 64 example_shdrs"
    by (simp only: example_contents_shdrs)
  have "drop (64 + 152) (contents example_file) = drop 64 (drop 152 (contents example_file))"
    by (simp only: drop_drop)
  then show "take 64 (drop 216 (contents example_file)) = take 64 (drop 64 example_shdrs)"
    by (simp add: example_contents_shdrs)
  have "drop (128 + 152) (contents example_file) = drop 128 (drop 152 (contents example_file))"
    by (simp only: drop_drop)
  then show "take 64 (drop 280 (contents example_file)) = take 64 (drop 128 example_shdrs)"
    by (simp add: example_contents_shdrs)
qed

lemma example_raw:
  "MakeSectionHeaderWithName_shdrs example_file example_ehdr =
    ([zero_Elf64Shdr,
      \<lparr>sh_Name = 1, sh_Type = 1, sh_Flags = 6, sh_Addr = 0x400078, sh_Offset = 120,
        sh_Size = 8, sh_Link = 0, sh_Info = 0, sh_Addralign = 1, sh_Entsize = 0\<rparr>,
      \<lparr>sh_Name = 7, sh_Type = 3, sh_Flags = 0, sh_Addr = 0, sh_Offset = 128, sh_Size = 17,
        sh_Link = 0, sh_Info = 0, sh_Addralign = 1, sh_Entsize = 0\<rparr>],
     example_file\<lparr>pos := 344\<rparr>)"
proof -
  have n: "unat (e_Shnum example_ehdr) = 3"
    by (simp add: example_ehdr_def)
  have r: "replicate 3 zero_Elf64Shdr = [zero_Elf64Shdr, zero_Elf64Shdr, zero_Elf64Shdr]"
    by (simp add: numeral_3_eq_3)
  have d0: "decode_Elf64Shdr (take 64 example_shdrs) = zero_Elf64Shdr"
    using example_shdr_0 by simp
  have d1: "decode_Elf64Shdr (take 64 (drop 64 example_shdrs)) =
      \<lparr>sh_Name = 1, sh_Type = 1, sh_Flags = 6, sh_Addr = 0x400078, sh_Offset = 120,
        sh_Size = 8, sh_Link = 0, sh_Info = 0, sh_Addralign = 1, sh_Entsize = 0\<rparr>"
    using example_shdr_1 by simp
  have d2: "decode_Elf64Shdr (take 64 (drop 128 example_shdrs)) =
      \<lparr>sh_Name = 7, sh_Type = 3, sh_Flags = 0, sh_Addr = 0, sh_Offset = 128, sh_Size = 17,
        sh_Link = 0, sh_Info = 0, sh_Addralign = 1, sh_Entsize = 0\<rparr>"
    using example_shdr_2 by simp
  have p: "pos example_file = 64" "seek_limit example_file = 2 ^ 63 - 1"
    by (simp_all add: example_file_def)
  show ?thesis
    unfolding MakeSectionHeaderWithName_shdrs_def example_Seek n r
    by (simp add: sectionHeaders_loop.simps binary_Read_Shdr example_contents_length
        example_reads d0 d1 d2)
qed

lemma example_dumpStringTable:
  "dumpStringTable (example_file\<lparr>pos := 344\<rparr>) 128 17
     = (Inr example_strtab, example_file\<lparr>pos := 145\<rparr>)"
proof -
  have s: "Seek (example_file\<lparr>pos := 344\<rparr>) 128 = example_file\<lparr>pos := 128\<rparr>"
    by (simp add: Seek_def example_file_def)
  have u: "unread (example_file\<lparr>pos := 128\<rparr>) = drop 128 (contents example_file)"
    by (simp add: unread_def)
  show ?thesis
    by (simp add: dumpStringTable_eq s u example_contents_strtab example_contents_length
        maxAlloc_def)
qed

lemma example_resolved:
  "MakeSectionHeaderWithName example_file example_ehdr =
    (Inr [\<lparr>shn_Name = '''', shn_Type = 0, shn_Flags = 0, shn_Addr = 0, shn_Offset = 0,
            shn_Size = 0, shn_Link = 0, shn_Info = 0, shn_Addralign = 0, shn_Entsize = 0\<rparr>,
          \<lparr>shn_Name = ''.text'', shn_Type = 1, shn_Flags = 6, shn_Addr = 0x400078,
            shn_Offset = 120, shn_Size = 8, shn_Link = 0, shn_Info = 0, shn_Addralign = 1,
            shn_Entsize = 0\<rparr>,
          \<lparr>shn_Name = ''.shstrtab'', shn_Type = 3, shn_Flags = 0, shn_Addr = 0,
            shn_Offset = 128, shn_Size = 17, shn_Link = 0, shn_Info = 0, shn_Addralign = 1,
            shn_Entsize = 0\<rparr>],
     example_file\<lparr>pos := 145\<rparr>)"
proof -
  have n: "unat (e_Shnum example_ehdr) = 3" "unat (e_Shstrndx example_ehdr) = 2"
    by (simp_all add: example_ehdr_def)
  have r: "replicate 3 zero_Elf64ShdrWithName
      = [zero_Elf64ShdrWithName, zero_Elf64ShdrWithName, zero_Elf64ShdrWithName]"
    by (simp add: numeral_3_eq_3)
  show ?thesis
    unfolding MakeSectionHeaderWithName_eq example_raw n r
    by (simp add: example_dumpStringTable names_loop.simps example_getString
        zero_Elf64Shdr_def)
qed

subsection \<open>A string-table index outside the section header table\<close>

text \<open>
  Claim C1: when the string-table index of the file header is not less than the
  section-header count, binding the names fails and yields no sequence of resolved headers,
  whatever the byte source holds. The source has no check of its own: the failure is the
  run-time panic of the index expression \<^verbatim>\<open>shdrs[ehdr.Shstrndx]\<close> (index out of range), which
  is what the spec calls an invalid string-table index. It is raised after the first loop
  and before any string table is loaded.
\<close>

theorem MakeSectionHeaderWithName_bad_index:
  assumes "unat (e_Shnum ehdr) \<le> unat (e_Shstrndx ehdr)"
  shows "MakeSectionHeaderWithName file ehdr =
    (Inl (IndexOutOfRange (unat (e_Shstrndx ehdr)) (unat (e_Shnum ehdr))),
     snd (MakeSectionHeaderWithName_shdrs file ehdr))"
  using assms by (simp add: MakeSectionHeaderWithName_eq)

theorem MakeSectionHeaderWithName_bad_index_witness:
  "unat (e_Shnum (example_ehdr\<lparr>e_Shstrndx := 3\<rparr>)) \<le> unat (e_Shstrndx (example_ehdr\<lparr>e_Shstrndx := 3\<rparr>))
   \<and> fst (MakeSectionHeaderWithName example_file (example_ehdr\<lparr>e_Shstrndx := 3\<rparr>))
       = Inl (IndexOutOfRange 3 3)"
proof -
  have h: "unat (e_Shnum (example_ehdr\<lparr>e_Shstrndx := 3\<rparr>))
      \<le> unat (e_Shstrndx (example_ehdr\<lparr>e_Shstrndx := 3\<rparr>))"
    by (simp add: example_ehdr_def)
  have n: "unat (e_Shnum example_ehdr) = 3"
    by (simp add: example_ehdr_def)
  from MakeSectionHeaderWithName_bad_index [OF h, of example_file] h n show ?thesis
    by simp
qed

subsection \<open>No sections\<close>

text \<open>
  Claim C4 says that with a section-header count of zero, decoding the section headers
  yields the empty sequence and binding the names yields the empty sequence as well. The
  second part fails: \<open>shdrs\<close> is empty, so \<^verbatim>\<open>shdrs[ehdr.Shstrndx]\<close> panics for every index.
\<close>

theorem MakeSectionHeaderWithName_no_sections_counterexample:
  "e_Shnum (example_ehdr\<lparr>e_Shnum := 0, e_Shstrndx := 0\<rparr>) = 0
   \<and> fst (MakeSectionHeaderWithName example_file (example_ehdr\<lparr>e_Shnum := 0, e_Shstrndx := 0\<rparr>))
       = Inl (IndexOutOfRange 0 0)
   \<and> fst (MakeSectionHeaderWithName example_file (example_ehdr\<lparr>e_Shnum := 0, e_Shstrndx := 0\<rparr>))
       \<noteq> Inr []"
  by (simp add: MakeSectionHeaderWithName_eq)

text \<open>
  C4 as the source has it: with a section-header count of zero, decoding the section headers
  yields the empty sequence (not an error) and reads nothing; binding the names then fails
  with the index panic of C1, after the seek to the section header table and without
  loading a string table.
\<close>

theorem MakeSectionHeaderWithName_no_sections:
  assumes "e_Shnum ehdr = 0"
  shows "MakeSectionHeaderWithName_shdrs file ehdr = ([], Seek file (e_Shoff ehdr))
    \<and> MakeSectionHeaderWithName file ehdr =
        (Inl (IndexOutOfRange (unat (e_Shstrndx ehdr)) 0), Seek file (e_Shoff ehdr))"
proof -
  from assms have s: "MakeSectionHeaderWithName_shdrs file ehdr = ([], Seek file (e_Shoff ehdr))"
    by (simp add: MakeSectionHeaderWithName_shdrs_def sectionHeaders_loop.simps)
  with assms show ?thesis
    by (simp add: MakeSectionHeaderWithName_eq)
qed

theorem MakeSectionHeaderWithName_no_sections_witness:
  "e_Shnum (example_ehdr\<lparr>e_Shnum := 0\<rparr>) = 0
   \<and> MakeSectionHeaderWithName_shdrs example_file (example_ehdr\<lparr>e_Shnum := 0\<rparr>)
       = ([], example_file\<lparr>pos := 152\<rparr>)
   \<and> MakeSectionHeaderWithName example_file (example_ehdr\<lparr>e_Shnum := 0\<rparr>)
       = (Inl (IndexOutOfRange 2 0), example_file\<lparr>pos := 152\<rparr>)"
proof -
  have h: "e_Shnum (example_ehdr\<lparr>e_Shnum := 0\<rparr>) = 0"
    by simp
  have s: "Seek example_file (e_Shoff (example_ehdr\<lparr>e_Shnum := 0\<rparr>)) = example_file\<lparr>pos := 152\<rparr>"
    using example_Seek by simp
  have n: "unat (e_Shstrndx (example_ehdr\<lparr>e_Shnum := 0\<rparr>)) = 2"
    by (simp add: example_ehdr_def)
  from MakeSectionHeaderWithName_no_sections [OF h, of example_file] show ?thesis
    by (simp only: s n h)
qed

subsection \<open>Table order\<close>

text \<open>
  Claim C6: when binding the names succeeds, there are as many resolved headers as the
  section-header count \<open>N\<close>, and for every \<open>i < N\<close> the \<open>i\<close>-th raw header is the one decoded
  at slot \<open>i\<close> of the section header table (64 bytes at the table position plus \<open>64 * i\<close>),
  and type, flags, address, offset, size, link, info, alignment and entry size of the
  \<open>i\<close>-th resolved header are those of the \<open>i\<close>-th raw header.
\<close>

theorem MakeSectionHeaderWithName_order:
  assumes "MakeSectionHeaderWithName file ehdr = (Inr shdrwns, file')"
  shows "length shdrwns = unat (e_Shnum ehdr)
    \<and> length (fst (MakeSectionHeaderWithName_shdrs file ehdr)) = unat (e_Shnum ehdr)
    \<and> (\<forall>i < unat (e_Shnum ehdr).
          fst (MakeSectionHeaderWithName_shdrs file ehdr) ! i
            = shdr_at (contents file) (pos (Seek file (e_Shoff ehdr)) + 64 * i)
          \<and> shn_Type (shdrwns ! i) = sh_Type (fst (MakeSectionHeaderWithName_shdrs file ehdr) ! i)
          \<and> shn_Flags (shdrwns ! i) = sh_Flags (fst (MakeSectionHeaderWithName_shdrs file ehdr) ! i)
          \<and> shn_Addr (shdrwns ! i) = sh_Addr (fst (MakeSectionHeaderWithName_shdrs file ehdr) ! i)
          \<and> shn_Offset (shdrwns ! i) = sh_Offset (fst (MakeSectionHeaderWithName_shdrs file ehdr) ! i)
          \<and> shn_Size (shdrwns ! i) = sh_Size (fst (MakeSectionHeaderWithName_shdrs file ehdr) ! i)
          \<and> shn_Link (shdrwns ! i) = sh_Link (fst (MakeSectionHeaderWithName_shdrs file ehdr) ! i)
          \<and> shn_Info (shdrwns ! i) = sh_Info (fst (MakeSectionHeaderWithName_shdrs file ehdr) ! i)
          \<and> shn_Addralign (shdrwns ! i)
              = sh_Addralign (fst (MakeSectionHeaderWithName_shdrs file ehdr) ! i)
          \<and> shn_Entsize (shdrwns ! i)
              = sh_Entsize (fst (MakeSectionHeaderWithName_shdrs file ehdr) ! i))"
proof -
  let ?n = "unat (e_Shnum ehdr)"
  let ?raw = "fst (MakeSectionHeaderWithName_shdrs file ehdr)"
  from assms obtain stringTable where
    loop: "names_loop stringTable ?raw 0 ?n (replicate ?n zero_Elf64ShdrWithName) = Inr shdrwns"
    by (auto simp: MakeSectionHeaderWithName_eq split: if_splits prod.splits sum.splits)
  from names_loop_Inr [OF loop] have len: "length shdrwns = ?n"
    and res: "\<forall>j < ?n. resolved stringTable (?raw ! j) (shdrwns ! j)"
    by simp_all
  have raw: "length ?raw = ?n"
    by (rule MakeSectionHeaderWithName_shdrs_length)
  have "?raw ! i = shdr_at (contents file) (pos (Seek file (e_Shoff ehdr)) + 64 * i)
      \<and> shn_Type (shdrwns ! i) = sh_Type (?raw ! i)
      \<and> shn_Flags (shdrwns ! i) = sh_Flags (?raw ! i)
      \<and> shn_Addr (shdrwns ! i) = sh_Addr (?raw ! i)
      \<and> shn_Offset (shdrwns ! i) = sh_Offset (?raw ! i)
      \<and> shn_Size (shdrwns ! i) = sh_Size (?raw ! i)
      \<and> shn_Link (shdrwns ! i) = sh_Link (?raw ! i)
      \<and> shn_Info (shdrwns ! i) = sh_Info (?raw ! i)
      \<and> shn_Addralign (shdrwns ! i) = sh_Addralign (?raw ! i)
      \<and> shn_Entsize (shdrwns ! i) = sh_Entsize (?raw ! i)" if i: "i < ?n" for i
  proof -
    from res i have "resolved stringTable (?raw ! i) (shdrwns ! i)"
      by blast
    moreover from i have "?raw ! i = shdr_at (contents file) (pos (Seek file (e_Shoff ehdr)) + 64 * i)"
      by (rule MakeSectionHeaderWithName_shdrs_nth)
    ultimately show ?thesis
      by (simp add: resolved_def)
  qed
  with len raw show ?thesis
    by blast
qed

theorem MakeSectionHeaderWithName_order_witness:
  "MakeSectionHeaderWithName example_file example_ehdr =
    (Inr [\<lparr>shn_Name = '''', shn_Type = 0, shn_Flags = 0, shn_Addr = 0, shn_Offset = 0,
            shn_Size = 0, shn_Link = 0, shn_Info = 0, shn_Addralign = 0, shn_Entsize = 0\<rparr>,
          \<lparr>shn_Name = ''.text'', shn_Type = 1, shn_Flags = 6, shn_Addr = 0x400078,
            shn_Offset = 120, shn_Size = 8, shn_Link = 0, shn_Info = 0, shn_Addralign = 1,
            shn_Entsize = 0\<rparr>,
          \<lparr>shn_Name = ''.shstrtab'', shn_Type = 3, shn_Flags = 0, shn_Addr = 0,
            shn_Offset = 128, shn_Size = 17, shn_Link = 0, shn_Info = 0, shn_Addralign = 1,
            shn_Entsize = 0\<rparr>],
     example_file\<lparr>pos := 145\<rparr>)
   \<and> (1 :: nat) < unat (e_Shnum example_ehdr)
   \<and> fst (MakeSectionHeaderWithName_shdrs example_file example_ehdr) ! 1
       = shdr_at (contents example_file) (152 + 64 * 1)
   \<and> sh_Offset (fst (MakeSectionHeaderWithName_shdrs example_file example_ehdr) ! 1) = 120
   \<and> sh_Type (fst (MakeSectionHeaderWithName_shdrs example_file example_ehdr) ! 1) = 1"
proof -
  let ?ws = "[\<lparr>shn_Name = '''', shn_Type = 0, shn_Flags = 0, shn_Addr = 0, shn_Offset = 0,
            shn_Size = 0, shn_Link = 0, shn_Info = 0, shn_Addralign = 0, shn_Entsize = 0\<rparr>,
          \<lparr>shn_Name = ''.text'', shn_Type = 1, shn_Flags = 6, shn_Addr = 0x400078,
            shn_Offset = 120, shn_Size = 8, shn_Link = 0, shn_Info = 0, shn_Addralign = 1,
            shn_Entsize = 0\<rparr>,
          \<lparr>shn_Name = ''.shstrtab'', shn_Type = 3, shn_Flags = 0, shn_Addr = 0,
            shn_Offset = 128, shn_Size = 17, shn_Link = 0, shn_Info = 0, shn_Addralign = 1,
            shn_Entsize = 0\<rparr>]"
  let ?raw = "fst (MakeSectionHeaderWithName_shdrs example_file example_ehdr)"
  have n: "(1 :: nat) < unat (e_Shnum example_ehdr)"
    by (simp add: example_ehdr_def)
  have p: "pos (Seek example_file (e_Shoff example_ehdr)) = 152"
    by (simp add: example_Seek)
  note inst = MakeSectionHeaderWithName_order [OF example_resolved, THEN conjunct2,
      THEN conjunct2, rule_format, OF n]
  have "?raw ! 1
       = shdr_at (contents example_file) (pos (Seek example_file (e_Shoff example_ehdr)) + 64 * 1)"
    by (rule inst [THEN conjunct1])
  then have a: "?raw ! 1 = shdr_at (contents example_file) (152 + 64 * 1)"
    by (simp only: p)
  have "shn_Type (?ws ! 1) = sh_Type (?raw ! 1)"
    by (rule inst [THEN conjunct2, THEN conjunct1])
  moreover have "shn_Type (?ws ! 1) = 1"
    by simp
  ultimately have c: "sh_Type (?raw ! 1) = 1"
    by (rule trans [OF sym])
  have "shn_Offset (?ws ! 1) = sh_Offset (?raw ! 1)"
    by (rule inst [THEN conjunct2, THEN conjunct2, THEN conjunct2, THEN conjunct2,
        THEN conjunct1])
  moreover have "shn_Offset (?ws ! 1) = 120"
    by simp
  ultimately have b: "sh_Offset (?raw ! 1) = 120"
    by (rule trans [OF sym])
  from example_resolved n a b c show ?thesis
    by (intro conjI)
qed

end
